theory Spec2Isabelle
  imports Main "HOL-Library.Word"
begin

unbundle bit_operations_syntax

text \<open>
  A shallow embedding of ikago's address model (package \<open>addr\<close>: parsing of
  endpoint texts, expansion of hosts, compilation of capture filters) and of its
  encrypted, framed connection (package \<open>pcap\<close>: \<open>TCPConn.Read\<close> and
  \<open>TCPConn.Write\<close>), with the properties the specification states about them.
\<close>

section \<open>Go values shared by both packages\<close>

type_synonym byte = "8 word"

text \<open>
  A run-time panic is kept apart from a returned \<open>error\<close>: \<open>Panics\<close> is what an
  unguarded index or slice expression does when it is out of range, \<open>Returns\<close> carries
  whatever the function returns, an \<open>error\<close> value included.
\<close>

datatype panic = IndexOutOfRange | SliceBoundsOutOfRange

datatype 'a outcome = Panics panic | Returns 'a

text \<open>
  \<open>net.IP\<close> is a byte slice; \<open>None\<close> is the nil slice, which \<open>ParseIP\<close> and
  \<open>To4\<close> return on failure and which a wildcard \<open>TCPAddr\<close> carries.
\<close>

type_synonym IP = "byte list option"

definition bytes_of :: "IP \<Rightarrow> byte list" where
  "bytes_of ip = (case ip of None \<Rightarrow> [] | Some bs \<Rightarrow> bs)"

text \<open>
  The implementations of \<open>net.Addr\<close> the program handles: \<open>net.IPAddr\<close> (IP, Zone),
  \<open>net.TCPAddr\<close> (IP, Port, Zone) and the package's own \<open>ICMPQueryAddr\<close> (IP, Id)
  and \<open>MultiIPAddr\<close> (IPs).
\<close>

datatype Addr =
    IPAddr IP string
  | TCPAddr IP int string
  | ICMPQueryAddr IP "16 word"
  | MultiIPAddr "IP list"

datatype NumErr = ErrSyntax | ErrRange

text \<open>
  Errors as values. \<open>AddrError err addr\<close> and \<open>NumError func num err\<close> are the
  library's; \<open>ErrorString\<close> is \<open>fmt.Errorf\<close> without \<open>%w\<close>; \<open>WrapError text cause\<close>
  is \<open>fmt.Errorf\<close> with a trailing \<open>%w\<close>: the formatted text before the cause, and the
  cause; \<open>OpError op net source addr err\<close> is \<open>net.OpError\<close>; \<open>ExternalError\<close>
  is an error of a collaborator (socket, codec, frame extractor).
\<close>

datatype error =
    AddrError string string
  | NumError string string NumErr
  | ErrorString string
  | WrapError string error
  | OpError string string Addr Addr error
  | ExternalError string

section \<open>Package addr: the library functions it calls\<close>

text \<open>
  \<open>strconv.ParseUint\<close>, \<open>net.SplitHostPort\<close>, \<open>net.ParseIP\<close>, \<open>IP.To4\<close>,
  \<open>IP.String\<close> and \<open>hex.Encode\<close> belong to Go's standard library. They are
  modelled here after the library's own code, loop by loop, for the arguments that
  package \<open>addr\<close> passes (base 10 and bit size 16 for \<open>ParseUint\<close>). The theorems
  about \<open>ParseAddr\<close> use them through their results; the concrete texts of the
  witnesses and counterexamples are evaluated with them.
\<close>

subsection \<open>strconv.ParseUint(s, 10, 16)\<close>

text \<open>
  The value of one character as \<open>ParseUint\<close> reads it: a decimal digit, or a letter
  (lower-cased by \<open>c | 0x20\<close>) counting from 10.
\<close>

definition digitval :: "char \<Rightarrow> nat option" where
  "digitval c =
     (let n = (of_char c :: nat); l = n OR 32
      in if 48 \<le> n \<and> n \<le> 57 then Some (n - 48)
         else if 97 \<le> l \<and> l \<le> 122 then Some (l - 97 + 10)
         else None)"

definition cutoff10 :: nat where
  "cutoff10 = (2 ^ 64 - 1) div 10 + 1"

definition maxVal16 :: nat where
  "maxVal16 = 2 ^ 16 - 1"

text \<open>
  The loop over the bytes of \<open>s\<close>, base 10 and bit size 16; \<open>s0\<close> is the whole input,
  for the error. The accumulator never exceeds \<open>maxVal16\<close>, so the 64-bit
  arithmetic of the source cannot wrap and \<open>nat\<close> computes the same.
\<close>

fun ParseUint_loop :: "string \<Rightarrow> string \<Rightarrow> nat \<Rightarrow> error + nat" where
  "ParseUint_loop s0 [] n = Inr n"
| "ParseUint_loop s0 (c # cs) n =
     (case digitval c of
        None \<Rightarrow> Inl (NumError ''ParseUint'' s0 ErrSyntax)
      | Some d \<Rightarrow>
          if d \<ge> 10 then Inl (NumError ''ParseUint'' s0 ErrSyntax)
          else if n \<ge> cutoff10 then Inl (NumError ''ParseUint'' s0 ErrRange)
          else let n1 = n * 10 + d
               in if n1 > maxVal16 then Inl (NumError ''ParseUint'' s0 ErrRange)
                  else ParseUint_loop s0 cs n1)"

definition ParseUint :: "string \<Rightarrow> error + nat" where
  "ParseUint s =
     (if s = [] then Inl (NumError ''ParseUint'' s ErrSyntax)
      else ParseUint_loop s s 0)"

subsection \<open>net.SplitHostPort\<close>

fun IndexByte :: "string \<Rightarrow> char \<Rightarrow> nat option" where
  "IndexByte [] c = None"
| "IndexByte (x # xs) c =
     (if x = c then Some 0 else map_option Suc (IndexByte xs c))"

definition LastIndexByte :: "string \<Rightarrow> char \<Rightarrow> nat option" where
  "LastIndexByte s c =
     map_option (\<lambda>k. length s - 1 - k) (IndexByte (rev s) c)"

definition missingPort :: string where
  "missingPort = ''missing port in address''"

definition tooManyColons :: string where
  "tooManyColons = ''too many colons in address''"

text \<open>
  The last two checks of \<open>SplitHostPort\<close>: no \<open>[\<close> from position \<open>j\<close> on, no
  \<open>]\<close> from position \<open>k\<close> on; then the port is what follows the last colon, at \<open>i\<close>.
\<close>

definition SplitHostPort_tail ::
  "string \<Rightarrow> string \<Rightarrow> nat \<Rightarrow> nat \<Rightarrow> nat \<Rightarrow> error + (string \<times> string)" where
  "SplitHostPort_tail hostport host i j k =
     (if IndexByte (drop j hostport) (CHR ''['') \<noteq> None
        then Inl (AddrError ''unexpected '[' in address'' hostport)
      else if IndexByte (drop k hostport) (CHR '']'') \<noteq> None
        then Inl (AddrError ''unexpected ']' in address'' hostport)
      else Inr (host, drop (i + 1) hostport))"

definition SplitHostPort :: "string \<Rightarrow> error + (string \<times> string)" where
  "SplitHostPort hostport =
     (case LastIndexByte hostport (CHR '':'') of
        None \<Rightarrow> Inl (AddrError missingPort hostport)
      | Some i \<Rightarrow>
          if hd hostport = CHR ''[''
          then (case IndexByte hostport (CHR '']'') of
                  None \<Rightarrow> Inl (AddrError ''missing ']' in address'' hostport)
                | Some e \<Rightarrow>
                    if e + 1 = length hostport then Inl (AddrError missingPort hostport)
                    else if e + 1 = i
                      then SplitHostPort_tail hostport (take (e - 1) (drop 1 hostport)) i 1 (e + 1)
                    else if hostport ! (e + 1) = CHR '':''
                      then Inl (AddrError tooManyColons hostport)
                    else Inl (AddrError missingPort hostport))
          else let host = take i hostport
               in if IndexByte host (CHR '':'') \<noteq> None
                    then Inl (AddrError tooManyColons hostport)
                  else SplitHostPort_tail hostport host i 0 0)"

subsection \<open>net.ParseIP\<close>

definition big :: nat where
  "big = 0xFFFFFF"

fun dtoi_loop :: "string \<Rightarrow> nat \<Rightarrow> nat \<Rightarrow> nat \<times> nat \<times> bool" where
  "dtoi_loop [] n i = (if i = 0 then (0, 0, False) else (n, i, True))"
| "dtoi_loop (c # cs) n i =
     (let x = (of_char c :: nat)
      in if 48 \<le> x \<and> x \<le> 57
         then (let n1 = n * 10 + (x - 48)
               in if n1 \<ge> big then (big, i, False) else dtoi_loop cs n1 (i + 1))
         else if i = 0 then (0, 0, False) else (n, i, True))"

definition dtoi :: "string \<Rightarrow> nat \<times> nat \<times> bool" where
  "dtoi s = dtoi_loop s 0 0"

definition hexval :: "char \<Rightarrow> nat option" where
  "hexval c =
     (let x = (of_char c :: nat)
      in if 48 \<le> x \<and> x \<le> 57 then Some (x - 48)
         else if 97 \<le> x \<and> x \<le> 102 then Some (x - 97 + 10)
         else if 65 \<le> x \<and> x \<le> 70 then Some (x - 65 + 10)
         else None)"

fun xtoi_loop :: "string \<Rightarrow> nat \<Rightarrow> nat \<Rightarrow> nat \<times> nat \<times> bool" where
  "xtoi_loop [] n i = (if i = 0 then (0, i, False) else (n, i, True))"
| "xtoi_loop (c # cs) n i =
     (case hexval c of
        Some d \<Rightarrow>
          (let n1 = n * 16 + d
           in if n1 \<ge> big then (0, i, False) else xtoi_loop cs n1 (i + 1))
      | None \<Rightarrow> if i = 0 then (0, i, False) else (n, i, True))"

definition xtoi :: "string \<Rightarrow> nat \<times> nat \<times> bool" where
  "xtoi s = xtoi_loop s 0 0"

definition v4InV6Prefix :: "byte list" where
  "v4InV6Prefix = [0, 0, 0, 0, 0, 0, 0, 0, 0, 0, 0xff, 0xff]"

text \<open>
  \<open>parseIPv4\<close>: four decimal fields of at most 255, separated by dots, no leading
  zero in a field of several digits. The loop runs from the state \<open>(i, s, p)\<close>, with
  \<open>p\<close> the octets read so far.
\<close>

function parseIPv4_loop :: "nat \<Rightarrow> string \<Rightarrow> byte list \<Rightarrow> byte list option" where
  "parseIPv4_loop i s p =
     (if \<not> i < 4 then (if s \<noteq> [] then None else Some p)
      else if s = [] then None
      else case (if i > 0 then (if hd s \<noteq> CHR ''.'' then None else Some (tl s))
                 else Some s) of
             None \<Rightarrow> None
           | Some s1 \<Rightarrow>
               (case dtoi s1 of
                  (n, c, ok) \<Rightarrow>
                    if \<not> ok \<or> n > 0xFF then None
                    else if c > 1 \<and> hd s1 = CHR ''0'' then None
                    else parseIPv4_loop (i + 1) (drop c s1) (p @ [word_of_nat n])))"
  by pat_completeness auto
termination
  by (relation "measure (\<lambda>(i, s, p). 4 - i)") auto

declare parseIPv4_loop.simps [simp del]

definition parseIPv4 :: "string \<Rightarrow> IP" where
  "parseIPv4 s = map_option (\<lambda>p. v4InV6Prefix @ p) (parseIPv4_loop 0 s [])"

text \<open>
  The main loop of \<open>parseIPv6\<close>, from the state \<open>(i, s, ip, ellipsis)\<close>: \<open>None\<close> where
  the source returns nil, the state at the loop's exit otherwise.
\<close>

function parseIPv6_loop ::
  "nat \<Rightarrow> string \<Rightarrow> byte list \<Rightarrow> int \<Rightarrow> (nat \<times> string \<times> byte list \<times> int) option" where
  "parseIPv6_loop i s ip ell =
     (if \<not> i < 16 then Some (i, s, ip, ell)
      else case xtoi s of
        (n, c, ok) \<Rightarrow>
          if \<not> ok \<or> n > 0xFFFF then None
          else if c < length s \<and> s ! c = CHR ''.''
          then (if ell < 0 \<and> i \<noteq> 12 then None
                else if i + 4 > 16 then None
                else case parseIPv4 s of
                       None \<Rightarrow> None
                     | Some ip4 \<Rightarrow>
                         Some (i + 4, [],
                               ip[i := ip4 ! 12, i + 1 := ip4 ! 13,
                                  i + 2 := ip4 ! 14, i + 3 := ip4 ! 15], ell))
          else (let ip1 = ip[i := word_of_nat (drop_bit 8 n), i + 1 := word_of_nat n];
                    s1 = drop c s
                in if s1 = [] then Some (i + 2, s1, ip1, ell)
                   else if hd s1 \<noteq> CHR '':'' \<or> length s1 = 1 then None
                   else if hd (tl s1) = CHR '':''
                   then (if ell \<ge> 0 then None
                         else if tl (tl s1) = [] then Some (i + 2, [], ip1, int (i + 2))
                         else parseIPv6_loop (i + 2) (tl (tl s1)) ip1 (int (i + 2)))
                   else parseIPv6_loop (i + 2) (tl s1) ip1 ell))"
  by pat_completeness auto
termination
  by (relation "measure (\<lambda>(i, s, ip, ell). 16 - i)") auto

declare parseIPv6_loop.simps [simp del]

text \<open>
  Expanding the ellipsis: the \<open>i - e\<close> bytes written after it move to the end, and the
  gap is zeroed, both passes running downwards as in the source.
\<close>

definition expand_ellipsis :: "nat \<Rightarrow> nat \<Rightarrow> byte list \<Rightarrow> byte list" where
  "expand_ellipsis i e ip =
     (let n = 16 - i;
          ip1 = fold (\<lambda>j a. a[j + n := a ! j]) (rev [e ..< i]) ip
      in fold (\<lambda>j a. a[j := 0]) (rev [e ..< e + n]) ip1)"

definition parseIPv6 :: "string \<Rightarrow> IP" where
  "parseIPv6 s =
     (let ip0 = replicate 16 (0 :: byte);
          lead = (length s \<ge> 2 \<and> s ! 0 = CHR '':'' \<and> s ! 1 = CHR '':'')
      in if lead \<and> drop 2 s = [] then Some ip0
         else case parseIPv6_loop 0 (if lead then drop 2 s else s) ip0
                     (if lead then 0 else - 1) of
                None \<Rightarrow> None
              | Some (i, s1, ip, ell) \<Rightarrow>
                  if s1 \<noteq> [] then None
                  else if i < 16
                  then (if ell < 0 then None else Some (expand_ellipsis i (nat ell) ip))
                  else if ell \<ge> 0 then None
                  else Some ip)"

fun ParseIP_scan :: "string \<Rightarrow> string \<Rightarrow> IP" where
  "ParseIP_scan s [] = None"
| "ParseIP_scan s (c # cs) =
     (if c = CHR ''.'' then parseIPv4 s
      else if c = CHR '':'' then parseIPv6 s
      else ParseIP_scan s cs)"

definition ParseIP :: "string \<Rightarrow> IP" where
  "ParseIP s = ParseIP_scan s s"

subsection \<open>IP.To4, IP.String, hex.Encode and the verb \<open>%d\<close>\<close>

definition To4 :: "IP \<Rightarrow> IP" where
  "To4 ip =
     (let b = bytes_of ip
      in if length b = 4 then ip
         else if length b = 16 \<and> list_all (\<lambda>x. x = 0) (take 10 b)
                 \<and> b ! 10 = 0xff \<and> b ! 11 = 0xff
           then Some (take 4 (drop 12 b))
         else None)"

definition decimal_digit :: "nat \<Rightarrow> char" where
  "decimal_digit d = ''0123456789'' ! d"

fun utoa :: "nat \<Rightarrow> string" where
  "utoa n = (if n < 10 then [decimal_digit n]
             else utoa (n div 10) @ [decimal_digit (n mod 10)])"

declare utoa.simps [simp del]

text \<open>\<open>%d\<close> of a Go \<open>int\<close>: a minus sign for a negative value, then the digits.\<close>

definition itoa :: "int \<Rightarrow> string" where
  "itoa i = (if i < 0 then CHR ''-'' # utoa (nat (- i)) else utoa (nat i))"

text \<open>
  \<open>ip.String()\<close> where \<open>ip.To4()\<close> is the four bytes \<open>p4\<close>: the dotted decimal
  form. \<open>fullString\<close> calls \<open>String\<close> on such addresses only.
\<close>

definition dotted :: "byte list \<Rightarrow> string" where
  "dotted p4 =
     utoa (unat (p4 ! 0)) @ ''.'' @ utoa (unat (p4 ! 1)) @ ''.'' @
     utoa (unat (p4 ! 2)) @ ''.'' @ utoa (unat (p4 ! 3))"

definition hextable :: string where
  "hextable = ''0123456789abcdef''"

definition hex_byte :: "byte \<Rightarrow> string" where
  "hex_byte v = [hextable ! unat (drop_bit 4 v), hextable ! unat (v AND 0x0f)]"

definition hex_Encode :: "byte list \<Rightarrow> string" where
  "hex_Encode src = concat (map hex_byte src)"

subsection \<open>Slice expressions\<close>

text \<open>
  \<open>xs[lo:hi]\<close> and \<open>xs[lo:]\<close> on a slice whose capacity is its length (as
  \<open>make([]byte, n)\<close> gives): a panic when the bounds are out of range.
\<close>

definition slice :: "'a list \<Rightarrow> nat \<Rightarrow> nat \<Rightarrow> 'a list outcome" where
  "slice xs lo hi =
     (if lo \<le> hi \<and> hi \<le> length xs then Returns (take (hi - lo) (drop lo xs))
      else Panics SliceBoundsOutOfRange)"

definition slice_from :: "'a list \<Rightarrow> nat \<Rightarrow> 'a list outcome" where
  "slice_from xs lo =
     (if lo \<le> length xs then Returns (drop lo xs) else Panics SliceBoundsOutOfRange)"

definition obind :: "'a outcome \<Rightarrow> ('a \<Rightarrow> 'b outcome) \<Rightarrow> 'b outcome" where
  "obind x f = (case x of Panics p \<Rightarrow> Panics p | Returns v \<Rightarrow> f v)"

section \<open>Package addr\<close>

definition ParseTCPAddr :: "string \<Rightarrow> error + Addr" where
  "ParseTCPAddr s =
     (case SplitHostPort s of
        Inl err \<Rightarrow> Inl (WrapError ''split host port: '' err)
      | Inr (ipStr, portStr) \<Rightarrow>
          (case ParseIP ipStr of
             None \<Rightarrow> Inl (ErrorString (''invalid ip '' @ ipStr))
           | Some ip \<Rightarrow>
               (case ParseUint portStr of
                  Inl err \<Rightarrow> Inl (WrapError (''parse port '' @ portStr @ '': '') err)
                | Inr port \<Rightarrow> Inr (TCPAddr (Some ip) (int port) []))))"

definition ParseAddr :: "string \<Rightarrow> (error + Addr) outcome" where
  "ParseAddr s =
     (if s = [] then Panics IndexOutOfRange
      else if hd s = CHR '':''
      then (case ParseUint (tl s) of
              Inl err \<Rightarrow> Returns (Inl (WrapError (''parse port '' @ tl s @ '': '') err))
            | Inr port \<Rightarrow> Returns (Inr (TCPAddr None (int port) [])))
      else (case ParseTCPAddr s of
              Inl err \<Rightarrow>
                (case ParseIP s of
                   None \<Rightarrow> Returns (Inl (ErrorString (''invalid ip '' @ s)))
                 | Some ip \<Rightarrow> Returns (Inr (IPAddr (Some ip) [])))
            | Inr addr \<Rightarrow> Returns (Inr addr)))"

definition fullString :: "IP \<Rightarrow> string outcome" where
  "fullString ip =
     (case To4 ip of
        Some p4 \<Rightarrow> Returns (dotted p4)
      | None \<Rightarrow>
          (let dst = hex_Encode (bytes_of ip)
           in obind (slice dst 0 4) (\<lambda>g0.
              obind (slice dst 4 8) (\<lambda>g1.
              obind (slice dst 8 12) (\<lambda>g2.
              obind (slice dst 12 16) (\<lambda>g3.
              obind (slice dst 16 20) (\<lambda>g4.
              obind (slice dst 20 24) (\<lambda>g5.
              obind (slice dst 24 28) (\<lambda>g6.
              obind (slice_from dst 28) (\<lambda>g7.
                Returns (g0 @ '':'' @ g1 @ '':'' @ g2 @ '':'' @ g3 @ '':'' @
                         g4 @ '':'' @ g5 @ '':'' @ g6 @ '':'' @ g7)))))))))))"

text \<open>The verb \<open>%T\<close> on the values that reach the default branch of \<open>bpfFilter\<close>.\<close>

definition typeName :: "Addr \<Rightarrow> string" where
  "typeName a =
     (case a of
        IPAddr ip z \<Rightarrow> ''*net.IPAddr''
      | TCPAddr ip p z \<Rightarrow> ''*net.TCPAddr''
      | ICMPQueryAddr ip i \<Rightarrow> ''addr.ICMPQueryAddr''
      | MultiIPAddr ips \<Rightarrow> ''addr.MultiIPAddr'')"

definition bpfFilter :: "string \<Rightarrow> Addr \<Rightarrow> (error + string) outcome" where
  "bpfFilter prefix addr =
     (case addr of
        IPAddr ip z \<Rightarrow>
          obind (fullString ip) (\<lambda>h.
            Returns (Inr (''('' @ prefix @ '' host '' @ h @ '')'')))
      | TCPAddr ip port z \<Rightarrow>
          if ip = None
          then Returns (Inr (''('' @ prefix @ '' port '' @ itoa port @ '')''))
          else obind (fullString ip) (\<lambda>h.
                 Returns (Inr (''('' @ prefix @ '' host '' @ h @ '' && '' @
                               prefix @ '' port '' @ itoa port @ '')'')))
      | _ \<Rightarrow> Returns (Inl (ErrorString (''type '' @ typeName addr @ '' not support''))))"

definition SrcBPFFilter :: "Addr \<Rightarrow> (error + string) outcome" where
  "SrcBPFFilter addr = bpfFilter ''src'' addr"

definition DstBPFFilter :: "Addr \<Rightarrow> (error + string) outcome" where
  "DstBPFFilter addr = bpfFilter ''dst'' addr"

section \<open>Package pcap: the connection\<close>

text \<open>
  The socket (\<open>net.TCPConn\<close>), the codec (\<open>crypto.Crypt\<close>) and the frame extractor
  (\<open>Desticker\<close>) are collaborators of \<open>TCPConn\<close>: their states are the type parameters
  \<open>'s\<close>, \<open>'k\<close> and \<open>'d\<close>, and their methods, each taking the object's state and
  returning the new one, are the fields of this record. \<open>conn_Read s n\<close> is a read
  into a buffer of \<open>n\<close> bytes and yields the bytes read or an error; \<open>conn_Write\<close>
  yields the pair \<open>(n, err)\<close> of the socket's \<open>Write\<close>.
\<close>

record ('s, 'k, 'd) collaborators =
  conn_Read :: "'s \<Rightarrow> nat \<Rightarrow> 's \<times> (error + byte list)"
  conn_Write :: "'s \<Rightarrow> byte list \<Rightarrow> 's \<times> int \<times> error option"
  conn_LocalAddr :: "'s \<Rightarrow> Addr"
  conn_RemoteAddr :: "'s \<Rightarrow> Addr"
  crypt_Encrypt :: "'k \<Rightarrow> byte list \<Rightarrow> 'k \<times> (error + byte list)"
  crypt_Decrypt :: "'k \<Rightarrow> byte list \<Rightarrow> 'k \<times> (error + byte list)"
  NewDesticker :: "'d"
  destick_SetDeadline :: "'d \<Rightarrow> int \<Rightarrow> 'd"
  destick_Append :: "'d \<Rightarrow> byte list \<Rightarrow> 'd \<times> (error + byte list list)"

text \<open>The calls a method of \<open>TCPConn\<close> makes on its collaborators, in order.\<close>

datatype call =
    ConnRead nat
  | ConnWrite "byte list"
  | Encrypt "byte list"
  | Decrypt "byte list"
  | Append "byte list"

fun is_ConnRead :: "call \<Rightarrow> bool" where
  "is_ConnRead (ConnRead n) = True"
| "is_ConnRead _ = False"

fun is_ConnWrite :: "call \<Rightarrow> bool" where
  "is_ConnWrite (ConnWrite bs) = True"
| "is_ConnWrite _ = False"

record ('s, 'k, 'd) TCPConn =
  conn :: 's
  crypt :: 'k
  buffer :: "byte list"
  destick :: 'd
  stash :: "byte list list option"
  stashId :: int

definition keepSticky :: int where
  "keepSticky = 30 * 1000000000"

text \<open>
  \<open>newTCPConn\<close>, with the socket and the codec that \<open>DialTCP\<close> and \<open>Accept\<close>
  assign to the new connection before they return it.
\<close>

definition newTCPConn ::
  "('s, 'k, 'd) collaborators \<Rightarrow> 's \<Rightarrow> 'k \<Rightarrow> ('s, 'k, 'd) TCPConn" where
  "newTCPConn m s k =
     \<lparr>conn = s, crypt = k, buffer = replicate 65535 0,
      destick = destick_SetDeadline m (NewDesticker m) keepSticky,
      stash = Some [], stashId = 0\<rparr>"

text \<open>\<open>len(c.stash)\<close>: the nil slice has length 0.\<close>

definition stash_list :: "('s, 'k, 'd) TCPConn \<Rightarrow> byte list list" where
  "stash_list c = (case stash c of None \<Rightarrow> [] | Some fs \<Rightarrow> fs)"

definition stash_len :: "('s, 'k, 'd) TCPConn \<Rightarrow> int" where
  "stash_len c = int (length (stash_list c))"

text \<open>The condition of \<open>Read\<close>'s \<open>if\<close>: no stash, or the cursor at or past its end.\<close>

definition exhausted :: "('s, 'k, 'd) TCPConn \<Rightarrow> bool" where
  "exhausted c = (stash c = None \<or> stash_len c \<le> stashId c)"

text \<open>
  The invariant of the stash: there is one, and the cursor lies within it or at its end.
\<close>

definition cursor_inv :: "('s, 'k, 'd) TCPConn \<Rightarrow> bool" where
  "cursor_inv c = (stash c \<noteq> None \<and> 0 \<le> stashId c \<and> stashId c \<le> stash_len c)"

text \<open>The built-in \<open>copy(dst, src)\<close>: the bytes that fit, the rest of \<open>dst\<close> untouched.\<close>

definition copy_go :: "'a list \<Rightarrow> 'a list \<Rightarrow> 'a list" where
  "copy_go dst src = take (length dst) src @ drop (length src) dst"

definition read_OpError ::
  "('s, 'k, 'd) collaborators \<Rightarrow> 's \<Rightarrow> string \<Rightarrow> error \<Rightarrow> error" where
  "read_OpError m s tag err =
     OpError ''read'' ''pcap'' (conn_LocalAddr m s) (conn_RemoteAddr m s)
       (WrapError (tag @ '': '') err)"

text \<open>
  The body of \<open>Read\<close>'s \<open>if\<close>: one socket read into the buffer, decryption, the
  frame extractor. \<open>Some r\<close> is an early \<open>return r\<close>; \<open>None\<close> falls through to the
  copy step with the new stash.
\<close>

definition refill ::
  "('s, 'k, 'd) collaborators \<Rightarrow> ('s, 'k, 'd) TCPConn \<Rightarrow>
     (int \<times> error option) option \<times> ('s, 'k, 'd) TCPConn \<times> call list" where
  "refill m c =
     (case conn_Read m (conn c) (length (buffer c)) of
        (s1, Inl err) \<Rightarrow>
          (Some (0, Some err), c\<lparr>conn := s1\<rparr>, [ConnRead (length (buffer c))])
      | (s1, Inr bs) \<Rightarrow>
          (let data = take (length (buffer c)) bs;
               c1 = c\<lparr>conn := s1, buffer := data @ drop (length data) (buffer c)\<rparr>;
               ev1 = [ConnRead (length (buffer c)), Decrypt data]
           in case crypt_Decrypt m (crypt c) data of
                (k1, Inl err) \<Rightarrow>
                  (Some (0, Some (read_OpError m s1 ''decrypt'' err)),
                   c1\<lparr>crypt := k1\<rparr>, ev1)
              | (k1, Inr dp) \<Rightarrow>
                  (case destick_Append m (destick c) dp of
                     (d1, Inl err) \<Rightarrow>
                       (Some (0, Some (read_OpError m s1 ''destick'' err)),
                        c1\<lparr>crypt := k1, destick := d1\<rparr>, ev1 @ [Append dp])
                   | (d1, Inr packets) \<Rightarrow>
                       if length packets = 0
                       then (Some (0, None),
                             c1\<lparr>crypt := k1, destick := d1\<rparr>, ev1 @ [Append dp])
                       else (None,
                             c1\<lparr>crypt := k1, destick := d1,
                                stash := Some packets, stashId := 0\<rparr>,
                             ev1 @ [Append dp]))))"

text \<open>
  The copy step: \<open>copy(b, c.stash[c.stashId])\<close>, \<open>c.stashId++\<close>, and the length of
  the frame returned. The index expression panics out of range.
\<close>

definition deliver ::
  "('s, 'k, 'd) TCPConn \<Rightarrow> byte list \<Rightarrow>
     (int \<times> error option) outcome \<times> ('s, 'k, 'd) TCPConn \<times> byte list" where
  "deliver c b =
     (if stashId c < 0 \<or> stash_len c \<le> stashId c then (Panics IndexOutOfRange, c, b)
      else (let frame = stash_list c ! nat (stashId c)
            in (Returns (int (length frame), None),
                c\<lparr>stashId := stashId c + 1\<rparr>, copy_go b frame)))"

text \<open>
  \<open>Read\<close>: the value returned (or the panic), the connection after the call, the
  caller's buffer \<open>b\<close> after the call, and the calls made on the collaborators.
\<close>

definition Read ::
  "('s, 'k, 'd) collaborators \<Rightarrow> ('s, 'k, 'd) TCPConn \<Rightarrow> byte list \<Rightarrow>
     (int \<times> error option) outcome \<times> ('s, 'k, 'd) TCPConn \<times> byte list \<times> call list" where
  "Read m c b =
     (if exhausted c
      then (case refill m c of
              (Some r, c1, evs) \<Rightarrow> (Returns r, c1, b, evs)
            | (None, c1, evs) \<Rightarrow>
                (case deliver c1 b of (r, c2, b1) \<Rightarrow> (r, c2, b1, evs)))
      else (case deliver c b of (r, c2, b1) \<Rightarrow> (r, c2, b1, [])))"

definition Write ::
  "('s, 'k, 'd) collaborators \<Rightarrow> ('s, 'k, 'd) TCPConn \<Rightarrow> byte list \<Rightarrow>
     (int \<times> error option) \<times> ('s, 'k, 'd) TCPConn \<times> call list" where
  "Write m c b =
     (case crypt_Encrypt m (crypt c) b of
        (k1, Inl err) \<Rightarrow>
          ((0, Some (OpError ''write'' ''pcap''
                       (conn_LocalAddr m (conn c)) (conn_RemoteAddr m (conn c))
                       (WrapError ''encrypt: '' err))),
           c\<lparr>crypt := k1\<rparr>, [Encrypt b])
      | (k1, Inr contents) \<Rightarrow>
          (case conn_Write m (conn c) contents of
             (s1, n, e) \<Rightarrow>
               ((n, e), c\<lparr>crypt := k1, conn := s1\<rparr>, [Encrypt b, ConnWrite contents])))"

text \<open>
  The connections a program can hold: a new one, and what \<open>Read\<close> and \<open>Write\<close>
  leave behind.
\<close>

inductive reachable ::
  "('s, 'k, 'd) collaborators \<Rightarrow> ('s, 'k, 'd) TCPConn \<Rightarrow> bool"
  for m :: "('s, 'k, 'd) collaborators" where
  reach_new: "reachable m (newTCPConn m s k)"
| reach_Read: "reachable m c \<Longrightarrow> Read m c b = (r, c1, b1, evs) \<Longrightarrow> reachable m c1"
| reach_Write: "reachable m c \<Longrightarrow> Write m c b = (r, c1, evs) \<Longrightarrow> reachable m c1"

section \<open>A concrete socket, codec and frame extractor\<close>

text \<open>
  One instance of the collaborators, on which the theorems below are evaluated. The
  socket is the list of chunks still to arrive and the list of chunks written; the
  codec puts a marker byte in front and flips bits; the extractor cuts frames at zero
  bytes and gives up when more than four bytes wait for their terminator.
\<close>

type_synonym demo_socket = "byte list list \<times> byte list list"

definition demo_Read :: "demo_socket \<Rightarrow> nat \<Rightarrow> demo_socket \<times> (error + byte list)" where
  "demo_Read s n =
     (case fst s of
        [] \<Rightarrow> (s, Inl (ExternalError ''EOF''))
      | x # xs \<Rightarrow> ((xs, snd s), Inr x))"

definition demo_Write :: "demo_socket \<Rightarrow> byte list \<Rightarrow> demo_socket \<times> int \<times> error option" where
  "demo_Write s bs = ((fst s, snd s @ [bs]), int (length bs), None)"

definition demo_Encrypt :: "unit \<Rightarrow> byte list \<Rightarrow> unit \<times> (error + byte list)" where
  "demo_Encrypt k bs =
     (k, if bs = [] then Inl (ExternalError ''empty plaintext'')
         else Inr (0x2a # map (\<lambda>x. x XOR 0x5a) bs))"

definition demo_Decrypt :: "unit \<Rightarrow> byte list \<Rightarrow> unit \<times> (error + byte list)" where
  "demo_Decrypt k bs =
     (k, case bs of
           [] \<Rightarrow> Inl (ExternalError ''short ciphertext'')
         | h # t \<Rightarrow> if h = 0x2a then Inr (map (\<lambda>x. x XOR 0x5a) t)
                    else Inl (ExternalError ''bad marker''))"

fun demo_frames :: "byte list \<Rightarrow> byte list \<Rightarrow> byte list list \<times> byte list" where
  "demo_frames cur [] = ([], cur)"
| "demo_frames cur (x # xs) =
     (if x = 0 then (case demo_frames [] xs of (fs, r) \<Rightarrow> (cur # fs, r))
      else demo_frames (cur @ [x]) xs)"

definition demo_Append :: "byte list \<Rightarrow> byte list \<Rightarrow> byte list \<times> (error + byte list list)" where
  "demo_Append d bs =
     (case demo_frames d bs of
        (fs, r) \<Rightarrow> if length r > 4 then (r, Inl (ExternalError ''stale'')) else (r, Inr fs))"

definition demo :: "(demo_socket, unit, byte list) collaborators" where
  "demo =
     \<lparr>conn_Read = demo_Read, conn_Write = demo_Write,
      conn_LocalAddr = (\<lambda>s. TCPAddr None 1 []),
      conn_RemoteAddr = (\<lambda>s. TCPAddr None 2 []),
      crypt_Encrypt = demo_Encrypt, crypt_Decrypt = demo_Decrypt,
      NewDesticker = [], destick_SetDeadline = (\<lambda>d t. d),
      destick_Append = demo_Append\<rparr>"

text \<open>A new connection of the instance, with the chunks the peer will send.\<close>

definition demo_conn :: "byte list list \<Rightarrow> (demo_socket, unit, byte list) TCPConn" where
  "demo_conn chunks = newTCPConn demo (chunks, []) ()"

section \<open>Vocabulary of the properties\<close>

text \<open>
  The fields of a text cut at its colons, as \<open>strings.Split(s, ":")\<close> gives them:
  the groups of an expanded address.
\<close>

fun split_colons :: "string \<Rightarrow> string list" where
  "split_colons [] = [[]]"
| "split_colons (x # xs) =
     (if x = CHR '':'' then [] # split_colons xs
      else (case split_colons xs of
              [] \<Rightarrow> [[x]]
            | g # gs \<Rightarrow> (x # g) # gs))"

text \<open>The characters of a dotted IPv4 text: decimal digits and the dot.\<close>

definition is_digit :: "char \<Rightarrow> bool" where
  "is_digit x = (48 \<le> (of_char x :: nat) \<and> (of_char x :: nat) \<le> 57)"

definition v4char :: "char \<Rightarrow> bool" where
  "v4char x = (x = CHR ''.'' \<or> is_digit x)"

section \<open>The connection: the stash and its cursor\<close>

lemmas Read_eval = Read_def refill_def deliver_def exhausted_def stash_len_def
  stash_list_def copy_go_def read_OpError_def Let_def

lemma deliver_in_range:
  assumes "0 \<le> stashId c" and "stashId c < stash_len c"
  shows "deliver c b =
           (Returns (int (length (stash_list c ! nat (stashId c))), None),
            c\<lparr>stashId := stashId c + 1\<rparr>,
            copy_go b (stash_list c ! nat (stashId c)))"
  using assms by (simp add: deliver_def Let_def)

lemma Read_draining:
  assumes "0 \<le> stashId c" and "stashId c < stash_len c" and "stash c \<noteq> None"
  shows "Read m c b =
           (Returns (int (length (stash_list c ! nat (stashId c))), None),
            c\<lparr>stashId := stashId c + 1\<rparr>,
            copy_go b (stash_list c ! nat (stashId c)), [])"
  using assms by (auto simp: Read_def exhausted_def deliver_in_range)

lemma refill_one_socket_read:
  "\<exists>n. filter is_ConnRead (snd (snd (refill m c))) = [ConnRead n]"
  by (simp add: refill_def Let_def split: prod.splits sum.splits)

lemma refill_early_return:
  assumes "refill m c = (Some r, c1, evs)"
  shows "stash c1 = stash c \<and> stashId c1 = stashId c"
  using assms by (auto simp: refill_def Let_def split: prod.splits sum.splits if_splits)

lemma refill_frames:
  assumes "conn_Read m (conn c) (length (buffer c)) = (s1, Inr bs)"
    and "crypt_Decrypt m (crypt c) (take (length (buffer c)) bs) = (k1, Inr dp)"
    and "destick_Append m (destick c) dp = (d1, Inr packets)"
    and "packets \<noteq> []"
  shows "refill m c =
           (None,
            c\<lparr>conn := s1,
              buffer := take (length (buffer c)) bs
                          @ drop (length (take (length (buffer c)) bs)) (buffer c),
              crypt := k1, destick := d1, stash := Some packets, stashId := 0\<rparr>,
            [ConnRead (length (buffer c)), Decrypt (take (length (buffer c)) bs),
             Append dp])"
  using assms by (simp add: refill_def Let_def)

lemma refill_fall_through:
  assumes "refill m c = (None, c1, evs)"
  shows "\<exists>packets. packets \<noteq> [] \<and> stash c1 = Some packets \<and> stashId c1 = 0"
  using assms by (auto simp: refill_def Let_def split: prod.splits sum.splits if_splits)

lemma Read_preserves_inv:
  assumes "cursor_inv c" and "Read m c b = (r, c1, b1, evs)"
  shows "cursor_inv c1"
proof (cases "exhausted c")
  case True
  obtain r0 c0 evs0 where rf: "refill m c = (r0, c0, evs0)"
    by (cases "refill m c") auto
  show ?thesis
  proof (cases r0)
    case None
    with rf obtain packets where p: "packets \<noteq> []" "stash c0 = Some packets" "stashId c0 = 0"
      using refill_fall_through by blast
    then have "0 \<le> stashId c0" "stashId c0 < stash_len c0"
      by (simp_all add: stash_len_def stash_list_def)
    then have "deliver c0 b = (Returns (int (length (stash_list c0 ! nat (stashId c0))), None),
            c0\<lparr>stashId := stashId c0 + 1\<rparr>, copy_go b (stash_list c0 ! nat (stashId c0)))"
      by (rule deliver_in_range)
    with True rf None assms(2) have "c1 = c0\<lparr>stashId := stashId c0 + 1\<rparr>"
      by (simp add: Read_def)
    with p show ?thesis
      by (cases packets) (simp_all add: cursor_inv_def stash_len_def stash_list_def)
  next
    case (Some r1)
    with True rf assms(2) have "c1 = c0" by (simp add: Read_def)
    with rf Some refill_early_return[of m c r1 c0 evs0] assms(1) show ?thesis
      by (simp add: cursor_inv_def stash_len_def stash_list_def)
  qed
next
  case False
  with assms(1) have h: "0 \<le> stashId c" "stashId c < stash_len c" "stash c \<noteq> None"
    by (auto simp: cursor_inv_def exhausted_def)
  from Read_draining[OF h, of m b] assms(2) have "c1 = c\<lparr>stashId := stashId c + 1\<rparr>"
    by simp
  with h show ?thesis
    by (simp add: cursor_inv_def stash_len_def stash_list_def)
qed

lemma Write_keeps_stash:
  assumes "Write m c b = (r, c1, evs)"
  shows "stash c1 = stash c \<and> stashId c1 = stashId c"
  using assms by (auto simp: Write_def split: prod.splits sum.splits)

lemma reachable_cursor_inv:
  assumes "reachable m c"
  shows "cursor_inv c"
  using assms
proof (induction rule: reachable.induct)
  case (reach_new s k)
  show ?case by (simp add: cursor_inv_def newTCPConn_def stash_len_def stash_list_def)
next
  case (reach_Read c b r c1 b1 evs)
  then show ?case using Read_preserves_inv by blast
next
  case (reach_Write c b r c1 evs)
  then show ?case using Write_keeps_stash[of m c b r c1 evs]
    by (simp add: cursor_inv_def stash_len_def stash_list_def)
qed

lemma Read_returns:
  assumes "reachable m c"
  shows "\<exists>v. fst (Read m c b) = Returns v"
proof -
  from assms have inv: "cursor_inv c" by (rule reachable_cursor_inv)
  show ?thesis
  proof (cases "exhausted c")
    case True
    obtain r0 c0 evs0 where rf: "refill m c = (r0, c0, evs0)"
      by (cases "refill m c") auto
    show ?thesis
    proof (cases r0)
      case None
      with rf obtain packets where p: "packets \<noteq> []" "stash c0 = Some packets"
        "stashId c0 = 0"
        using refill_fall_through by blast
      then have "0 \<le> stashId c0" "stashId c0 < stash_len c0"
        by (simp_all add: stash_len_def stash_list_def)
      from deliver_in_range[OF this, of b] True rf None show ?thesis
        by (simp add: Read_def)
    next
      case (Some r1)
      with True rf show ?thesis by (simp add: Read_def)
    qed
  next
    case False
    with inv have "0 \<le> stashId c" "stashId c < stash_len c" "stash c \<noteq> None"
      by (auto simp: cursor_inv_def exhausted_def)
    from Read_draining[OF this, of m b] show ?thesis by simp
  qed
qed

lemma Read_exhausted_calls:
  assumes "exhausted c" and "Read m c b = (r, c1, b1, evs)"
  shows "evs = snd (snd (refill m c))"
  using assms by (auto simp: Read_def split: prod.splits option.splits)


lemma Read_calls_draining:
  assumes "\<not> exhausted c" and "Read m c b = (r, c1, b1, evs)"
  shows "evs = []"
  using assms by (auto simp: Read_def split: prod.splits)

lemma refill_then_deliver:
  assumes "exhausted c" and "refill m c = (None, c0, evs0)"
    and "stash c0 = Some packets" and "stashId c0 = 0" and "packets \<noteq> []"
  shows "Read m c b =
           (Returns (int (length (hd packets)), None), c0\<lparr>stashId := 1\<rparr>,
            copy_go b (hd packets), evs0)"
proof -
  from assms(3-5) have "0 \<le> stashId c0" "stashId c0 < stash_len c0"
    by (simp_all add: stash_len_def stash_list_def)
  then have "deliver c0 b =
      (Returns (int (length (stash_list c0 ! nat (stashId c0))), None),
       c0\<lparr>stashId := stashId c0 + 1\<rparr>, copy_go b (stash_list c0 ! nat (stashId c0)))"
    by (rule deliver_in_range)
  moreover from assms(3-5) have "stash_list c0 ! nat (stashId c0) = hd packets"
    by (cases packets) (simp_all add: stash_list_def)
  ultimately show ?thesis
    using assms(1,2,4) by (simp add: Read_def)
qed

text \<open>
  Claim C1. On every connection a program can hold and every \<open>Read\<close> on it: the
  cursor \<open>stashId\<close> is at most the length of the stash, before and after the call;
  the stash is exhausted exactly when the cursor equals its length (or there is no
  stash); the socket is read exactly when the stash is exhausted, and then exactly
  once; when the read, the decryption and the extractor succeed with at least one
  frame, the body of the \<open>if\<close> leaves the extracted frames as the stash with the
  cursor at zero, and \<open>Read\<close> goes on to deliver the first of them, leaving the cursor
  at one; when the cursor is strictly below the length, \<open>Read\<close> calls no
  collaborator, changes nothing but the cursor and copies the frame at the cursor.
\<close>

theorem Read_stash_cursor:
  assumes "reachable m c" and "Read m c b = (r, c1, b1, evs)"
  shows "stashId c \<le> stash_len c \<and> stashId c1 \<le> stash_len c1
    \<and> (exhausted c = (stash c = None \<or> stashId c = stash_len c))
    \<and> ((\<exists>n. ConnRead n \<in> set evs) = exhausted c)
    \<and> (exhausted c \<longrightarrow>
          (\<exists>n. filter is_ConnRead evs = [ConnRead n])
          \<and> (\<forall>s1 bs k1 dp d1 packets.
                conn_Read m (conn c) (length (buffer c)) = (s1, Inr bs)
                \<and> crypt_Decrypt m (crypt c) (take (length (buffer c)) bs) = (k1, Inr dp)
                \<and> destick_Append m (destick c) dp = (d1, Inr packets)
                \<and> packets \<noteq> []
                \<longrightarrow> stash (fst (snd (refill m c))) = Some packets
                    \<and> stashId (fst (snd (refill m c))) = 0
                    \<and> stash c1 = Some packets \<and> stashId c1 = 1
                    \<and> r = Returns (int (length (hd packets)), None)
                    \<and> b1 = copy_go b (hd packets)))
    \<and> (stashId c < stash_len c \<longrightarrow>
          evs = [] \<and> c1 = c\<lparr>stashId := stashId c + 1\<rparr>
          \<and> r = Returns (int (length (stash_list c ! nat (stashId c))), None)
          \<and> b1 = copy_go b (stash_list c ! nat (stashId c)))"
proof -
  have inv: "cursor_inv c" using assms(1) by (rule reachable_cursor_inv)
  have inv1: "cursor_inv c1" using inv assms(2) by (rule Read_preserves_inv)
  have A: "stashId c \<le> stash_len c" using inv by (simp add: cursor_inv_def)
  have B: "stashId c1 \<le> stash_len c1" using inv1 by (simp add: cursor_inv_def)
  have C: "exhausted c = (stash c = None \<or> stashId c = stash_len c)"
    using inv by (auto simp: cursor_inv_def exhausted_def)
  have E1: "\<exists>n. filter is_ConnRead evs = [ConnRead n]" if ex: "exhausted c"
    using Read_exhausted_calls[OF ex assms(2)] refill_one_socket_read[of m c] by simp
  have D: "(\<exists>n. ConnRead n \<in> set evs) = exhausted c"
  proof (cases "exhausted c")
    case True
    from E1[OF True] obtain n where "filter is_ConnRead evs = [ConnRead n]" by blast
    then have "ConnRead n \<in> set (filter is_ConnRead evs)" by simp
    then have "ConnRead n \<in> set evs" by simp
    with True show ?thesis by blast
  next
    case False
    with Read_calls_draining[OF False assms(2)] show ?thesis by simp
  qed
  have E2: "stash (fst (snd (refill m c))) = Some packets
            \<and> stashId (fst (snd (refill m c))) = 0
            \<and> stash c1 = Some packets \<and> stashId c1 = 1
            \<and> r = Returns (int (length (hd packets)), None)
            \<and> b1 = copy_go b (hd packets)"
    if ex: "exhausted c"
      and h: "conn_Read m (conn c) (length (buffer c)) = (s1, Inr bs)"
        "crypt_Decrypt m (crypt c) (take (length (buffer c)) bs) = (k1, Inr dp)"
        "destick_Append m (destick c) dp = (d1, Inr packets)" "packets \<noteq> []"
    for s1 bs k1 dp d1 packets
  proof -
    note rf = refill_frames[OF h]
    have "Read m c b = (Returns (int (length (hd packets)), None),
            (fst (snd (refill m c)))\<lparr>stashId := 1\<rparr>, copy_go b (hd packets),
            snd (snd (refill m c)))"
      by (rule refill_then_deliver[OF ex _ _ _ h(4)]) (simp_all add: rf)
    with assms(2) show ?thesis by (auto simp: rf)
  qed
  have F: "evs = [] \<and> c1 = c\<lparr>stashId := stashId c + 1\<rparr>
          \<and> r = Returns (int (length (stash_list c ! nat (stashId c))), None)
          \<and> b1 = copy_go b (stash_list c ! nat (stashId c))"
    if lt: "stashId c < stash_len c"
  proof -
    from inv have "0 \<le> stashId c" "stash c \<noteq> None" by (simp_all add: cursor_inv_def)
    from Read_draining[OF this(1) lt this(2), of m b] assms(2) show ?thesis by simp
  qed
  from A B C D E1 E2 F show ?thesis by blast
qed


theorem Read_stash_cursor_witness:
  "reachable demo (demo_conn [[42, 91, 88, 89, 90, 94, 90]])
   \<and> exhausted (demo_conn [[42, 91, 88, 89, 90, 94, 90]])
   \<and> Read demo (demo_conn [[42, 91, 88, 89, 90, 94, 90]]) [0, 0, 0, 0] =
       (Returns (3, None),
        \<lparr>conn = ([], []), crypt = (),
         buffer = 42 # 91 # 88 # 89 # 90 # 94 # 90 # replicate 65528 0,
         destick = [], stash = Some [[1, 2, 3], [4]], stashId = 1\<rparr>,
        [1, 2, 3, 0],
        [ConnRead 65535, Decrypt [42, 91, 88, 89, 90, 94, 90], Append [1, 2, 3, 0, 4, 0]])
   \<and> Read demo
        \<lparr>conn = ([], []), crypt = (),
         buffer = 42 # 91 # 88 # 89 # 90 # 94 # 90 # replicate 65528 0,
         destick = [], stash = Some [[1, 2, 3], [4]], stashId = 1\<rparr> [0, 0, 0, 0] =
       (Returns (1, None),
        \<lparr>conn = ([], []), crypt = (),
         buffer = 42 # 91 # 88 # 89 # 90 # 94 # 90 # replicate 65528 0,
         destick = [], stash = Some [[1, 2, 3], [4]], stashId = 2\<rparr>,
        [4, 0, 0, 0], [])"
proof -
  let ?c0 = "demo_conn [[42, 91, 88, 89, 90, 94, 90]]"
  let ?c1 = "\<lparr>conn = ([], []), crypt = (),
         buffer = 42 # 91 # 88 # 89 # 90 # 94 # 90 # replicate 65528 (0 :: byte),
         destick = [], stash = Some [[1, 2, 3], [4 :: byte]], stashId = 1\<rparr>
           :: (demo_socket, unit, byte list) TCPConn"
  have r0: "reachable demo ?c0"
    unfolding demo_conn_def by (rule reach_new)
  obtain r c1 b1 evs where R0: "Read demo ?c0 [0, 0, 0, 0] = (r, c1, b1, evs)"
    by (cases "Read demo ?c0 [0, 0, 0, 0]") auto
  have ex0: "exhausted ?c0"
    by (simp add: exhausted_def stash_len_def stash_list_def demo_conn_def newTCPConn_def)
  have h1: "conn_Read demo (conn ?c0) (length (buffer ?c0)) =
              (([], []), Inr [42, 91, 88, 89, 90, 94, 90])"
    by (simp add: demo_def demo_conn_def newTCPConn_def demo_Read_def)
  have h2: "crypt_Decrypt demo (crypt ?c0)
              (take (length (buffer ?c0)) [42, 91, 88, 89, 90, 94, 90]) =
              ((), Inr [1, 2, 3, 0, 4, 0])"
    by (simp add: demo_def demo_conn_def newTCPConn_def demo_Decrypt_def)
  have h3: "destick_Append demo (destick ?c0) [1, 2, 3, 0, 4, 0] =
              ([], Inr [[1, 2, 3], [4]])"
    by (simp add: demo_def demo_conn_def newTCPConn_def demo_Append_def)
  note T0 = Read_stash_cursor[OF r0 R0]
  from T0 ex0 h1 h2 h3
  have first: "stash c1 = Some [[1, 2, 3], [4]] \<and> stashId c1 = 1
      \<and> r = Returns (3, None) \<and> b1 = [1, 2, 3, 0]"
    by (simp add: copy_go_def)
  have R0': "Read demo ?c0 [0, 0, 0, 0] =
       (Returns (3, None), ?c1, [1, 2, 3, 0],
        [ConnRead 65535, Decrypt [42, 91, 88, 89, 90, 94, 90], Append [1, 2, 3, 0, 4, 0]])"
    by (simp add: Read_eval demo_def demo_conn_def newTCPConn_def demo_Read_def
        demo_Decrypt_def demo_Append_def)
  have r1: "reachable demo ?c1"
    using reach_Read[OF r0 R0'] .
  obtain r' c2 b2 evs' where R1: "Read demo ?c1 [0, 0, 0, 0] = (r', c2, b2, evs')"
    by (cases "Read demo ?c1 [0, 0, 0, 0]") auto
  note T1 = Read_stash_cursor[OF r1 R1]
  from T1 have "evs' = [] \<and> c2 = ?c1\<lparr>stashId := 2\<rparr> \<and> r' = Returns (1, None)
      \<and> b2 = [4, 0, 0, 0]"
    by (simp add: stash_len_def stash_list_def copy_go_def)
  with R1 have R1': "Read demo ?c1 [0, 0, 0, 0] =
      (Returns (1, None), ?c1\<lparr>stashId := 2\<rparr>, [4, 0, 0, 0], [])"
    by simp
  from r0 ex0 R0' R1' show ?thesis by simp
qed

text \<open>
  Claim C3. When the stash is exhausted and the socket read, the decryption and the
  extractor's \<open>Append\<close> all succeed but \<open>Append\<close> yields no frame, \<open>Read\<close> returns
  \<open>(0, nil)\<close>, leaves the caller's buffer, the stash and the cursor as they were, and
  the stash is still exhausted, so that the next \<open>Read\<close> reads the socket again.
\<close>

theorem Read_no_frames:
  assumes "exhausted c"
    and "conn_Read m (conn c) (length (buffer c)) = (s1, Inr bs)"
    and "crypt_Decrypt m (crypt c) (take (length (buffer c)) bs) = (k1, Inr dp)"
    and "destick_Append m (destick c) dp = (d1, Inr [])"
  shows "\<exists>c1 evs. Read m c b = (Returns (0, None), c1, b, evs)
           \<and> stash c1 = stash c \<and> stashId c1 = stashId c \<and> exhausted c1"
  using assms by (simp add: Read_def refill_def exhausted_def stash_len_def stash_list_def Let_def)

theorem Read_no_frames_witness:
  "exhausted (demo_conn [[42, 91]])
   \<and> conn_Read demo (conn (demo_conn [[42, 91]])) (length (buffer (demo_conn [[42, 91]])))
       = (([], []), Inr [42, 91])
   \<and> crypt_Decrypt demo (crypt (demo_conn [[42, 91]]))
       (take (length (buffer (demo_conn [[42, 91]]))) [42, 91]) = ((), Inr [1])
   \<and> destick_Append demo (destick (demo_conn [[42, 91]])) [1] = ([1], Inr [])
   \<and> (\<exists>c1 evs. Read demo (demo_conn [[42, 91]]) [7, 7] = (Returns (0, None), c1, [7, 7], evs)
         \<and> stash c1 = stash (demo_conn [[42, 91]])
         \<and> stashId c1 = stashId (demo_conn [[42, 91]]) \<and> exhausted c1)"
proof -
  let ?c0 = "demo_conn [[42, 91]]"
  have ex0: "exhausted ?c0"
    by (simp add: exhausted_def stash_len_def stash_list_def demo_conn_def newTCPConn_def)
  have h1: "conn_Read demo (conn ?c0) (length (buffer ?c0)) = (([], []), Inr [42, 91])"
    by (simp add: demo_def demo_conn_def newTCPConn_def demo_Read_def)
  have h2: "crypt_Decrypt demo (crypt ?c0) (take (length (buffer ?c0)) [42, 91]) =
              ((), Inr [1])"
    by (simp add: demo_def demo_conn_def newTCPConn_def demo_Decrypt_def)
  have h3: "destick_Append demo (destick ?c0) [1] = ([1], Inr [])"
    by (simp add: demo_def demo_conn_def newTCPConn_def demo_Append_def)
  from ex0 h1 h2 h3 Read_no_frames[OF ex0 h1 h2 h3, of "[7, 7]"] show ?thesis
    by blast
qed

text \<open>
  Claim C4. \<open>Write\<close> passes the whole input to the codec in one call. If the codec
  fails with \<open>err\<close>, \<open>Write\<close> returns 0 and the \<open>OpError\<close> of operation
  \<open>write\<close> with the socket's local and remote addresses and the cause wrapped after
  \<open>encrypt: \<close>, the socket is left as it was and no socket write is made. If the
  codec succeeds, the ciphertext goes to the socket in exactly one write, whose
  result \<open>Write\<close> returns.
\<close>

theorem Write_encrypt:
  "(crypt_Encrypt m (crypt c) b = (k1, Inl err) \<longrightarrow>
      Write m c b =
        ((0, Some (OpError ''write'' ''pcap''
                     (conn_LocalAddr m (conn c)) (conn_RemoteAddr m (conn c))
                     (WrapError ''encrypt: '' err))),
         c\<lparr>crypt := k1\<rparr>, [Encrypt b])
      \<and> conn (fst (snd (Write m c b))) = conn c
      \<and> filter is_ConnWrite (snd (snd (Write m c b))) = [])
   \<and> (crypt_Encrypt m (crypt c) b = (k1, Inr contents) \<longrightarrow>
        Write m c b =
          ((fst (snd (conn_Write m (conn c) contents)),
            snd (snd (conn_Write m (conn c) contents))),
           c\<lparr>crypt := k1, conn := fst (conn_Write m (conn c) contents)\<rparr>,
           [Encrypt b, ConnWrite contents])
        \<and> filter is_ConnWrite (snd (snd (Write m c b))) = [ConnWrite contents])"
  by (simp add: Write_def split: prod.splits)

theorem Write_encrypt_witness:
  "crypt_Encrypt demo (crypt (demo_conn [])) [] = ((), Inl (ExternalError ''empty plaintext''))
   \<and> Write demo (demo_conn []) [] =
        ((0, Some (OpError ''write'' ''pcap'' (TCPAddr None 1 []) (TCPAddr None 2 [])
                     (WrapError ''encrypt: '' (ExternalError ''empty plaintext'')))),
         demo_conn [], [Encrypt []])
   \<and> crypt_Encrypt demo (crypt (demo_conn [])) [1, 2] = ((), Inr [42, 91, 88])
   \<and> Write demo (demo_conn []) [1, 2] =
        ((3, None), (demo_conn [])\<lparr>conn := ([], [[42, 91, 88]])\<rparr>,
         [Encrypt [1, 2], ConnWrite [42, 91, 88]])"
proof -
  let ?c0 = "demo_conn [] :: (demo_socket, unit, byte list) TCPConn"
  have e1: "crypt_Encrypt demo (crypt ?c0) [] = ((), Inl (ExternalError ''empty plaintext''))"
    by (simp add: demo_def demo_Encrypt_def)
  have e2: "crypt_Encrypt demo (crypt ?c0) [1, 2] = ((), Inr [42, 91, 88])"
    by (simp add: demo_def demo_Encrypt_def)
  have w: "conn_Write demo (conn ?c0) [42, 91, 88] = (([], [[42, 91, 88]]), 3, None)"
    by (simp add: demo_def demo_conn_def newTCPConn_def demo_Write_def)
  from e1 Write_encrypt[of demo ?c0 "[]" "()" "ExternalError ''empty plaintext''" "[]"]
  have A: "Write demo ?c0 [] =
        ((0, Some (OpError ''write'' ''pcap'' (TCPAddr None 1 []) (TCPAddr None 2 [])
                     (WrapError ''encrypt: '' (ExternalError ''empty plaintext'')))),
         ?c0, [Encrypt []])"
    by (simp add: demo_def)
  from e2 w Write_encrypt[of demo ?c0 "[1, 2]" "()" "ExternalError []" "[42, 91, 88]"]
  have B: "Write demo ?c0 [1, 2] =
        ((3, None), ?c0\<lparr>conn := ([], [[42, 91, 88]])\<rparr>,
         [Encrypt [1, 2], ConnWrite [42, 91, 88]])"
    by simp
  from e1 e2 A B show ?thesis by simp
qed

text \<open>
  Claim C10. When the codec succeeds and the socket write returns \<open>(n, nil)\<close> for the
  ciphertext, \<open>Write\<close> returns that \<open>n\<close>: the count of the ciphertext, not of the
  caller's datagram. Where the socket accepted the whole ciphertext (\<open>n\<close> is its
  length, as a write without error must) and the ciphertext and the datagram differ in
  length, the value returned differs from the length of the datagram.
\<close>

theorem Write_returns_ciphertext_count:
  assumes "crypt_Encrypt m (crypt c) b = (k1, Inr contents)"
    and "conn_Write m (conn c) contents = (s1, n, None)"
  shows "fst (Write m c b) = (n, None)
         \<and> (n = int (length contents) \<and> length contents \<noteq> length b
              \<longrightarrow> fst (fst (Write m c b)) \<noteq> int (length b))"
  using assms by (simp add: Write_def)

theorem Write_returns_ciphertext_count_witness:
  "crypt_Encrypt demo (crypt (demo_conn [])) [1, 2] = ((), Inr [42, 91, 88])
   \<and> conn_Write demo (conn (demo_conn [])) [42, 91, 88] = (([], [[42, 91, 88]]), 3, None)
   \<and> fst (Write demo (demo_conn []) [1, 2]) = (3, None)
   \<and> length [1 :: byte, 2] = 2"
proof -
  let ?c0 = "demo_conn [] :: (demo_socket, unit, byte list) TCPConn"
  have e2: "crypt_Encrypt demo (crypt ?c0) [1, 2] = ((), Inr [42, 91, 88])"
    by (simp add: demo_def demo_Encrypt_def)
  have w: "conn_Write demo (conn ?c0) [42, 91, 88] = (([], [[42, 91, 88]]), 3, None)"
    by (simp add: demo_def demo_conn_def newTCPConn_def demo_Write_def)
  from e2 w Write_returns_ciphertext_count[OF e2 w] show ?thesis by simp
qed


text \<open>
  Claim C2, as stated, fails: on a new connection whose first socket read brings the
  frame \<open>[1, 2, 3]\<close>, a \<open>Read\<close> into a buffer of two bytes copies \<open>[1, 2]\<close> and
  returns 3, the length of the frame, not the count 2 of the bytes copied.
\<close>

theorem Read_truncated_count_counterexample:
  "fst (Read demo (demo_conn [[42, 91, 88, 89, 90]]) [0, 0]) = Returns (3, None)
   \<and> fst (snd (snd (Read demo (demo_conn [[42, 91, 88, 89, 90]]) [0, 0]))) = [1, 2]
   \<and> stash (fst (snd (Read demo (demo_conn [[42, 91, 88, 89, 90]]) [0, 0])))
        = Some [[1, 2, 3]]
   \<and> stashId (fst (snd (Read demo (demo_conn [[42, 91, 88, 89, 90]]) [0, 0]))) = 1
   \<and> (3 :: int) \<noteq> int (length [1 :: byte, 2])"
  by (simp add: Read_eval demo_def demo_conn_def newTCPConn_def demo_Read_def
      demo_Decrypt_def demo_Append_def)

text \<open>
  Claim C2, amended. For a frame longer than the caller's buffer \<open>b\<close>, \<open>Read\<close> copies
  the first \<open>len(b)\<close> bytes of the frame into \<open>b\<close>, moves the cursor past the frame,
  so that the rest of it is never delivered, and returns the length of the whole frame
  with a nil error: a count greater than \<open>len(b)\<close>. This holds for a frame taken from
  the stash and for the first frame of a stash just filled from the socket.
\<close>

theorem Read_short_destination:
  "(0 \<le> stashId c \<and> stashId c < stash_len c \<and> stash c \<noteq> None
      \<and> length b < length (stash_list c ! nat (stashId c))
    \<longrightarrow> Read m c b =
          (Returns (int (length (stash_list c ! nat (stashId c))), None),
           c\<lparr>stashId := stashId c + 1\<rparr>,
           take (length b) (stash_list c ! nat (stashId c)), [])
        \<and> int (length b) < int (length (stash_list c ! nat (stashId c))))
   \<and> (exhausted c \<and> refill m c = (None, c0, evs0)
      \<and> length b < length (hd (stash_list c0))
    \<longrightarrow> Read m c b =
          (Returns (int (length (hd (stash_list c0))), None),
           c0\<lparr>stashId := 1\<rparr>, take (length b) (hd (stash_list c0)), evs0)
        \<and> int (length b) < int (length (hd (stash_list c0))))"
proof -
  have A: "Read m c b =
          (Returns (int (length (stash_list c ! nat (stashId c))), None),
           c\<lparr>stashId := stashId c + 1\<rparr>,
           take (length b) (stash_list c ! nat (stashId c)), [])"
    if "0 \<le> stashId c" "stashId c < stash_len c" "stash c \<noteq> None"
      "length b < length (stash_list c ! nat (stashId c))"
    using that Read_draining[OF that(1-3), of m b] by (simp add: copy_go_def)
  have B: "Read m c b =
          (Returns (int (length (hd (stash_list c0))), None),
           c0\<lparr>stashId := 1\<rparr>, take (length b) (hd (stash_list c0)), evs0)"
    if ex: "exhausted c" and rf: "refill m c = (None, c0, evs0)"
      and lt: "length b < length (hd (stash_list c0))"
  proof -
    from refill_fall_through[OF rf] obtain packets where
      p: "packets \<noteq> []" "stash c0 = Some packets" "stashId c0 = 0" by blast
    from refill_then_deliver[OF ex rf p(2) p(3) p(1), of b] p lt show ?thesis
      by (simp add: stash_list_def copy_go_def)
  qed
  from A B show ?thesis by simp
qed

theorem Read_short_destination_witness:
  "Read demo \<lparr>conn = ([], []), crypt = (), buffer = [], destick = [],
               stash = Some [[1], [2, 3, 4]], stashId = 1\<rparr> [0, 0] =
       (Returns (3, None),
        \<lparr>conn = ([], []), crypt = (), buffer = [], destick = [],
         stash = Some [[1], [2, 3, 4]], stashId = 2\<rparr>, [2, 3], [])
   \<and> exhausted (demo_conn [[42, 88, 89, 94, 90]])
   \<and> fst (refill demo (demo_conn [[42, 88, 89, 94, 90]])) = None
   \<and> fst (Read demo (demo_conn [[42, 88, 89, 94, 90]]) [0, 0]) = Returns (3, None)
   \<and> fst (snd (snd (Read demo (demo_conn [[42, 88, 89, 94, 90]]) [0, 0]))) = [2, 3]"
proof -
  let ?c = "\<lparr>conn = ([], []), crypt = (), buffer = [], destick = [],
               stash = Some [[1], [2, 3, 4 :: byte]], stashId = 1\<rparr>
             :: (demo_socket, unit, byte list) TCPConn"
  let ?d = "demo_conn [[42, 88, 89, 94, 90]]"
  have h: "0 \<le> stashId ?c \<and> stashId ?c < stash_len ?c \<and> stash ?c \<noteq> None
      \<and> length [0 :: byte, 0] < length (stash_list ?c ! nat (stashId ?c))"
    by (simp add: stash_len_def stash_list_def)
  from h Read_short_destination[of ?c "[0, 0]" demo]
  have A: "Read demo ?c [0, 0] =
       (Returns (3, None), ?c\<lparr>stashId := 2\<rparr>, [2, 3], [])"
    by (simp add: stash_list_def)
  obtain c0 evs0 where rf: "refill demo ?d = (None, c0, evs0)"
      and st: "stash_list c0 = [[2, 3, 4]]"
    by (simp add: refill_def Let_def stash_list_def demo_def demo_conn_def newTCPConn_def
        demo_Read_def demo_Decrypt_def demo_Append_def)
  have ex: "exhausted ?d"
    by (simp add: exhausted_def stash_len_def stash_list_def demo_conn_def newTCPConn_def)
  from ex rf st Read_short_destination[of ?d "[0, 0]" demo c0 evs0]
  have B: "Read demo ?d [0, 0] = (Returns (3, None), c0\<lparr>stashId := 1\<rparr>, [2, 3], evs0)"
    by simp
  from A B ex rf show ?thesis by simp
qed

section \<open>Package addr: expanded hosts and filters\<close>

lemma split_colons_field:
  assumes "CHR '':'' \<notin> set g"
  shows "split_colons (g @ CHR '':'' # rest) = g # split_colons rest"
  using assms by (induction g) auto

lemma split_colons_single:
  assumes "CHR '':'' \<notin> set g"
  shows "split_colons g = [g]"
  using assms by (induction g) auto

lemma high_nibble_bound: "unat (drop_bit 4 (v :: byte)) < 16"
proof -
  have "unat v < 2 ^ 8" using unsigned_less[of v, where 'a = nat] by simp
  have "unat (drop_bit 4 v) = drop_bit 4 (unat v)"
    by (rule unat_drop_bit_eq)
  also have "\<dots> = unat v div 2 ^ 4"
    by (rule drop_bit_eq_div)
  finally have "unat (drop_bit 4 v) = unat v div 2 ^ 4" .
  with \<open>unat v < 2 ^ 8\<close> show ?thesis by simp
qed

lemma low_nibble_bound: "unat ((v :: byte) AND 0x0f) < 16"
proof -
  have "v AND 0x0f \<le> 0x0f" by (rule word_and_le1)
  then have "unat (v AND 0x0f) \<le> unat (0x0f :: byte)" by (simp add: word_le_nat_alt)
  then show ?thesis by simp
qed

lemma hextable_nth: "n < 16 \<Longrightarrow> hextable ! n \<in> set hextable"
proof -
  have "length hextable = 16" by (simp add: hextable_def)
  then show "n < 16 \<Longrightarrow> hextable ! n \<in> set hextable" by simp
qed

lemma hex_byte_chars: "list_all (\<lambda>ch. ch \<in> set hextable) (hex_byte v)"
  using hextable_nth[OF high_nibble_bound[of v]] hextable_nth[OF low_nibble_bound[of v]]
  by (simp add: hex_byte_def)

lemma colon_not_hex: "CHR '':'' \<notin> set hextable"
  by (simp add: hextable_def)

lemma hex_byte_length: "length (hex_byte v) = 2"
  by (simp add: hex_byte_def)

lemma hex_byte_no_colon: "CHR '':'' \<notin> set (hex_byte v)"
  using hex_byte_chars[of v] colon_not_hex by (auto simp: list_all_iff)

lemma list16:
  assumes "length (bs :: 'a list) = 16"
  obtains b0 b1 b2 b3 b4 b5 b6 b7 b8 b9 b10 b11 b12 b13 b14 b15
  where "bs = [b0, b1, b2, b3, b4, b5, b6, b7, b8, b9, b10, b11, b12, b13, b14, b15]"
  using assms by (auto simp: eval_nat_numeral length_Suc_conv)

lemma fullString_expanded:
  assumes "length bs = 16" and "To4 (Some bs) = None"
  shows "fullString (Some bs) =
           Returns (hex_byte (bs ! 0) @ hex_byte (bs ! 1) @ '':'' @
                    hex_byte (bs ! 2) @ hex_byte (bs ! 3) @ '':'' @
                    hex_byte (bs ! 4) @ hex_byte (bs ! 5) @ '':'' @
                    hex_byte (bs ! 6) @ hex_byte (bs ! 7) @ '':'' @
                    hex_byte (bs ! 8) @ hex_byte (bs ! 9) @ '':'' @
                    hex_byte (bs ! 10) @ hex_byte (bs ! 11) @ '':'' @
                    hex_byte (bs ! 12) @ hex_byte (bs ! 13) @ '':'' @
                    hex_byte (bs ! 14) @ hex_byte (bs ! 15))"
proof -
  from assms(1) obtain b0 b1 b2 b3 b4 b5 b6 b7 b8 b9 b10 b11 b12 b13 b14 b15
    where bs: "bs = [b0, b1, b2, b3, b4, b5, b6, b7, b8, b9, b10, b11, b12, b13, b14, b15]"
    by (rule list16)
  have enc: "hex_Encode bs =
      hex_byte b0 @ hex_byte b1 @ hex_byte b2 @ hex_byte b3 @ hex_byte b4 @ hex_byte b5 @
      hex_byte b6 @ hex_byte b7 @ hex_byte b8 @ hex_byte b9 @ hex_byte b10 @ hex_byte b11 @
      hex_byte b12 @ hex_byte b13 @ hex_byte b14 @ hex_byte b15"
    by (simp add: bs hex_Encode_def)
  show ?thesis
    using assms(2)
    by (simp add: fullString_def bytes_of_def enc Let_def slice_def slice_from_def obind_def
        hex_byte_length)
      (simp add: bs hex_byte_def)
qed


lemma split_colons_group:
  "split_colons (hex_byte a @ hex_byte b @ CHR '':'' # rest) =
     (hex_byte a @ hex_byte b) # split_colons rest"
  using split_colons_field[of "hex_byte a @ hex_byte b" rest]
  by (simp add: hex_byte_no_colon)

lemma split_colons_last_group:
  "split_colons (hex_byte a @ hex_byte b) = [hex_byte a @ hex_byte b]"
  by (rule split_colons_single) (simp add: hex_byte_no_colon)

lemma hex_group_ok:
  "length (hex_byte a @ hex_byte b) = 4
   \<and> list_all (\<lambda>ch. ch \<in> set hextable) (hex_byte a @ hex_byte b)"
  using hex_byte_chars[of a] hex_byte_chars[of b]
  by (simp add: hex_byte_length)

text \<open>
  Claim C5. For a 16-byte address that is not IPv4 (\<open>To4\<close> is nil), \<open>fullString\<close>
  returns a text whose fields between colons are exactly eight, each the four
  characters of \<open>hextable\<close> (digits and lower-case \<open>a\<close> to \<open>f\<close>) that encode two
  bytes of the address, zeros included: no field is shortened or left out. For an
  address whose \<open>To4\<close> is \<open>p4\<close>, it returns the dotted decimal text of \<open>p4\<close>,
  which is what \<open>String\<close> gives.
\<close>

theorem fullString_groups:
  "(length bs = 16 \<and> To4 (Some bs) = None \<longrightarrow>
      (\<exists>s. fullString (Some bs) = Returns s
         \<and> split_colons s =
             [hex_byte (bs ! 0) @ hex_byte (bs ! 1), hex_byte (bs ! 2) @ hex_byte (bs ! 3),
              hex_byte (bs ! 4) @ hex_byte (bs ! 5), hex_byte (bs ! 6) @ hex_byte (bs ! 7),
              hex_byte (bs ! 8) @ hex_byte (bs ! 9), hex_byte (bs ! 10) @ hex_byte (bs ! 11),
              hex_byte (bs ! 12) @ hex_byte (bs ! 13), hex_byte (bs ! 14) @ hex_byte (bs ! 15)]
         \<and> length (split_colons s) = 8
         \<and> list_all (\<lambda>g. length g = 4
                            \<and> list_all (\<lambda>ch. ch \<in> set hextable) g)
              (split_colons s)))
   \<and> (To4 ip = Some p4 \<longrightarrow> fullString ip = Returns (dotted p4))"
proof -
  have A: "\<exists>s. fullString (Some bs) = Returns s
         \<and> split_colons s =
             [hex_byte (bs ! 0) @ hex_byte (bs ! 1), hex_byte (bs ! 2) @ hex_byte (bs ! 3),
              hex_byte (bs ! 4) @ hex_byte (bs ! 5), hex_byte (bs ! 6) @ hex_byte (bs ! 7),
              hex_byte (bs ! 8) @ hex_byte (bs ! 9), hex_byte (bs ! 10) @ hex_byte (bs ! 11),
              hex_byte (bs ! 12) @ hex_byte (bs ! 13), hex_byte (bs ! 14) @ hex_byte (bs ! 15)]
         \<and> length (split_colons s) = 8
         \<and> list_all (\<lambda>g. length g = 4
                            \<and> list_all (\<lambda>ch. ch \<in> set hextable) g)
              (split_colons s)"
    if h: "length bs = 16" "To4 (Some bs) = None"
  proof -
    let ?s = "hex_byte (bs ! 0) @ hex_byte (bs ! 1) @ '':'' @
                    hex_byte (bs ! 2) @ hex_byte (bs ! 3) @ '':'' @
                    hex_byte (bs ! 4) @ hex_byte (bs ! 5) @ '':'' @
                    hex_byte (bs ! 6) @ hex_byte (bs ! 7) @ '':'' @
                    hex_byte (bs ! 8) @ hex_byte (bs ! 9) @ '':'' @
                    hex_byte (bs ! 10) @ hex_byte (bs ! 11) @ '':'' @
                    hex_byte (bs ! 12) @ hex_byte (bs ! 13) @ '':'' @
                    hex_byte (bs ! 14) @ hex_byte (bs ! 15)"
    have f: "fullString (Some bs) = Returns ?s"
      using h by (rule fullString_expanded)
    have sp: "split_colons ?s =
             [hex_byte (bs ! 0) @ hex_byte (bs ! 1), hex_byte (bs ! 2) @ hex_byte (bs ! 3),
              hex_byte (bs ! 4) @ hex_byte (bs ! 5), hex_byte (bs ! 6) @ hex_byte (bs ! 7),
              hex_byte (bs ! 8) @ hex_byte (bs ! 9), hex_byte (bs ! 10) @ hex_byte (bs ! 11),
              hex_byte (bs ! 12) @ hex_byte (bs ! 13), hex_byte (bs ! 14) @ hex_byte (bs ! 15)]"
      by (simp only: append_Cons append_Nil split_colons_group split_colons_last_group)
    have ok: "list_all (\<lambda>g. length g = 4
                            \<and> list_all (\<lambda>ch. ch \<in> set hextable) g)
              (split_colons ?s)"
      unfolding sp by (simp add: hex_byte_chars hex_byte_length)
    from f sp ok show ?thesis by simp
  qed
  have B: "fullString ip = Returns (dotted p4)" if "To4 ip = Some p4"
    using that by (simp add: fullString_def)
  from A B show ?thesis by blast
qed


theorem fullString_groups_witness:
  "length [0 :: byte, 0, 0, 0, 0, 0, 0, 0, 0, 0, 0, 0, 0, 0, 0, 1] = 16
   \<and> To4 (Some [0, 0, 0, 0, 0, 0, 0, 0, 0, 0, 0, 0, 0, 0, 0, 1]) = None
   \<and> fullString (Some [0, 0, 0, 0, 0, 0, 0, 0, 0, 0, 0, 0, 0, 0, 0, 1]) =
       Returns ''0000:0000:0000:0000:0000:0000:0000:0001''
   \<and> split_colons ''0000:0000:0000:0000:0000:0000:0000:0001'' =
       [''0000'', ''0000'', ''0000'', ''0000'', ''0000'', ''0000'', ''0000'', ''0001'']
   \<and> To4 (Some [0, 0, 0, 0, 0, 0, 0, 0, 0, 0, 0xff, 0xff, 10, 0, 0, 1]) = Some [10, 0, 0, 1]
   \<and> fullString (Some [0, 0, 0, 0, 0, 0, 0, 0, 0, 0, 0xff, 0xff, 10, 0, 0, 1]) =
       Returns ''10.0.0.1''"
proof -
  let ?ip6 = "[0 :: byte, 0, 0, 0, 0, 0, 0, 0, 0, 0, 0, 0, 0, 0, 0, 1]"
  let ?ip4 = "Some [0 :: byte, 0, 0, 0, 0, 0, 0, 0, 0, 0, 0xff, 0xff, 10, 0, 0, 1]"
  have h: "length ?ip6 = 16 \<and> To4 (Some ?ip6) = None"
    by (simp add: To4_def bytes_of_def)
  have h4: "To4 ?ip4 = Some [10, 0, 0, 1]"
    by (simp add: To4_def bytes_of_def)
  have hx: "hex_byte 0 = ''00''" "hex_byte 1 = ''01''"
    by (simp_all add: hex_byte_def hextable_def)
  have d: "dotted [10, 0, 0, 1] = ''10.0.0.1''"
    by (simp add: dotted_def utoa.simps decimal_digit_def)
  note T = fullString_groups[of ?ip6 ?ip4 "[10, 0, 0, 1]"]
  from T[THEN conjunct1, rule_format, OF h]
  obtain s where s: "fullString (Some ?ip6) = Returns s"
    and sp: "split_colons s =
             [hex_byte (?ip6 ! 0) @ hex_byte (?ip6 ! 1), hex_byte (?ip6 ! 2) @ hex_byte (?ip6 ! 3),
              hex_byte (?ip6 ! 4) @ hex_byte (?ip6 ! 5), hex_byte (?ip6 ! 6) @ hex_byte (?ip6 ! 7),
              hex_byte (?ip6 ! 8) @ hex_byte (?ip6 ! 9), hex_byte (?ip6 ! 10) @ hex_byte (?ip6 ! 11),
              hex_byte (?ip6 ! 12) @ hex_byte (?ip6 ! 13), hex_byte (?ip6 ! 14) @ hex_byte (?ip6 ! 15)]"
    by (elim exE conjE)
  have f6: "fullString (Some ?ip6) = Returns ''0000:0000:0000:0000:0000:0000:0000:0001''"
    using fullString_expanded[of ?ip6] h by (simp add: hx)
  from T[THEN conjunct2, rule_format, OF h4] d
  have f4: "fullString ?ip4 = Returns ''10.0.0.1''" by simp
  from s f6 have e: "s = ''0000:0000:0000:0000:0000:0000:0000:0001''" by simp
  from sp have "split_colons s =
       [''0000'', ''0000'', ''0000'', ''0000'', ''0000'', ''0000'', ''0000'', ''0001'']"
    by (simp add: hx)
  with e have "split_colons ''0000:0000:0000:0000:0000:0000:0000:0001'' =
       [''0000'', ''0000'', ''0000'', ''0000'', ''0000'', ''0000'', ''0000'', ''0001'']"
    by (simp only:)
  with h h4 f6 f4 show ?thesis by (simp only: simp_thms)
qed

lemma fullString_returns:
  assumes "length (bytes_of ip) = 4 \<or> length (bytes_of ip) = 16"
  shows "\<exists>h. fullString ip = Returns h"
proof (cases "To4 ip")
  case (Some p4)
  then show ?thesis by (simp add: fullString_def)
next
  case None
  with assms have l: "length (bytes_of ip) = 16"
    by (auto simp: To4_def Let_def bytes_of_def split: if_splits)
  then obtain bs where bs: "ip = Some bs"
    by (cases ip) (auto simp: bytes_of_def)
  with l None fullString_expanded[of bs] show ?thesis
    by (simp add: bytes_of_def)
qed

text \<open>
  Claim C6. With the direction \<open>d\<close> (\<open>SrcBPFFilter\<close> passes \<open>src\<close>,
  \<open>DstBPFFilter\<close> passes \<open>dst\<close>) and \<open>h\<close> the expanded host that \<open>fullString\<close>
  returns, as it does for every IP of 4 or 16 bytes: an \<open>IPAddr\<close> compiles to
  \<open>(d host h)\<close>, a \<open>TCPAddr\<close> without IP to \<open>(d port p)\<close>, a \<open>TCPAddr\<close> with an
  IP to \<open>(d host h && d port p)\<close>, and an \<open>ICMPQueryAddr\<close> or a \<open>MultiIPAddr\<close>
  to an error and no filter.
\<close>

theorem bpfFilter_shapes:
  "(length (bytes_of ip) = 4 \<or> length (bytes_of ip) = 16 \<longrightarrow>
      (\<exists>h1. fullString ip = Returns h1))
   \<and> (fullString ip = Returns h \<longrightarrow>
      bpfFilter d (IPAddr ip z) = Returns (Inr (''('' @ d @ '' host '' @ h @ '')'')))
   \<and> bpfFilter d (TCPAddr None port z) =
        Returns (Inr (''('' @ d @ '' port '' @ itoa port @ '')''))
   \<and> (ip \<noteq> None \<and> fullString ip = Returns h \<longrightarrow>
        bpfFilter d (TCPAddr ip port z) =
          Returns (Inr (''('' @ d @ '' host '' @ h @ '' && '' @ d @ '' port '' @
                        itoa port @ '')'')))
   \<and> bpfFilter d (ICMPQueryAddr ip i) =
        Returns (Inl (ErrorString ''type addr.ICMPQueryAddr not support''))
   \<and> bpfFilter d (MultiIPAddr ips) =
        Returns (Inl (ErrorString ''type addr.MultiIPAddr not support''))
   \<and> SrcBPFFilter a = bpfFilter ''src'' a
   \<and> DstBPFFilter a = bpfFilter ''dst'' a"
  using fullString_returns[of ip]
  by (simp add: bpfFilter_def obind_def typeName_def SrcBPFFilter_def DstBPFFilter_def)

theorem bpfFilter_shapes_witness:
  "fullString (Some [0, 0, 0, 0, 0, 0, 0, 0, 0, 0, 0xff, 0xff, 10, 0, 0, 1]) =
       Returns ''10.0.0.1''
   \<and> SrcBPFFilter (IPAddr (Some [0, 0, 0, 0, 0, 0, 0, 0, 0, 0, 0xff, 0xff, 10, 0, 0, 1]) [])
       = Returns (Inr ''(src host 10.0.0.1)'')
   \<and> DstBPFFilter (TCPAddr None 53 []) = Returns (Inr ''(dst port 53)'')
   \<and> DstBPFFilter (TCPAddr (Some [0, 0, 0, 0, 0, 0, 0, 0, 0, 0, 0xff, 0xff, 10, 0, 0, 1])
        53 []) = Returns (Inr ''(dst host 10.0.0.1 && dst port 53)'')"
proof -
  let ?ip = "Some [0 :: byte, 0, 0, 0, 0, 0, 0, 0, 0, 0, 0xff, 0xff, 10, 0, 0, 1]"
  have f: "fullString ?ip = Returns ''10.0.0.1''"
    by (simp add: fullString_def To4_def bytes_of_def dotted_def utoa.simps decimal_digit_def)
  have p: "itoa 53 = ''53''"
    by (simp add: itoa_def utoa.simps decimal_digit_def)
  note T1 = bpfFilter_shapes[of ?ip "''10.0.0.1''" "''src''" "[]" 53 0 "[]"
      "IPAddr ?ip []"]
  note T2 = bpfFilter_shapes[of ?ip "''10.0.0.1''" "''dst''" "[]" 53 0 "[]"
      "TCPAddr None 53 []"]
  note T3 = bpfFilter_shapes[of ?ip "''10.0.0.1''" "''dst''" "[]" 53 0 "[]"
      "TCPAddr ?ip 53 []"]
  from f p T1 T2 T3 show ?thesis by simp
qed

text \<open>
  Claim C9. \<open>ParseAddr\<close> reads \<open>s[0]\<close> before anything else: on the empty text
  the index is out of range and the call panics, returning neither an address nor an
  error; the empty text is the only input on which it panics.
\<close>

theorem ParseAddr_empty_panics:
  "ParseAddr [] = Panics IndexOutOfRange
   \<and> (\<forall>r. ParseAddr [] \<noteq> Returns r)
   \<and> ((\<exists>p. ParseAddr s = Panics p) = (s = []))"
  by (auto simp: ParseAddr_def split: sum.splits option.splits)


section \<open>Package addr: parsing\<close>

lemmas ParseUint_eval = ParseUint_def digitval_def cutoff10_def maxVal16_def Let_def

lemmas SplitHostPort_eval = SplitHostPort_def SplitHostPort_tail_def LastIndexByte_def
  missingPort_def tooManyColons_def

lemma list_update_Cons_numeral:
  "(x # xs)[numeral k := y] = x # xs[pred_numeral k := y]"
  by (simp add: numeral_eq_Suc)

lemma replicate_16: "replicate 16 x = [x, x, x, x, x, x, x, x, x, x, x, x, x, x, x, x]"
  by (simp add: numeral_eq_Suc)

lemmas ParseIP_eval = ParseIP_def parseIPv4_def parseIPv4_loop.simps parseIPv6_def
  parseIPv6_loop.simps dtoi_def xtoi_def hexval_def big_def v4InV6Prefix_def
  expand_ellipsis_def list_update_Cons_numeral replicate_16 upt_rec
  drop_bit_eq_div

lemma IndexByte_None: "(IndexByte s c = None) = (c \<notin> set s)"
  by (induction s) auto

lemma IndexByte_first:
  assumes "c \<notin> set h"
  shows "IndexByte (h @ c # t) c = Some (length h)"
  using assms by (induction h) auto

lemma LastIndexByte_None: "(LastIndexByte s c = None) = (c \<notin> set s)"
  by (simp add: LastIndexByte_def IndexByte_None)

lemma LastIndexByte_last:
  assumes "c \<notin> set p"
  shows "LastIndexByte (h @ c # p) c = Some (length h)"
proof -
  have "IndexByte (rev p @ c # rev h) c = Some (length (rev p))"
    using assms by (intro IndexByte_first) simp
  then show ?thesis by (simp add: LastIndexByte_def)
qed

lemma SplitHostPort_plain:
  assumes "CHR '':'' \<notin> set h" "CHR ''['' \<notin> set h" "CHR '']'' \<notin> set h"
    and "CHR '':'' \<notin> set p" "CHR ''['' \<notin> set p" "CHR '']'' \<notin> set p"
  shows "SplitHostPort (h @ CHR '':'' # p) = Inr (h, p)"
proof -
  have last: "LastIndexByte (h @ CHR '':'' # p) (CHR '':'') = Some (length h)"
    using assms(4) by (rule LastIndexByte_last)
  have first: "hd (h @ CHR '':'' # p) \<noteq> CHR ''[''"
    using assms(2) by (cases h) auto
  have host: "IndexByte h (CHR '':'') = None"
    using assms(1) by (simp add: IndexByte_None)
  have open_b: "IndexByte (h @ CHR '':'' # p) (CHR ''['') = None"
    using assms(2,5) by (simp add: IndexByte_None)
  have close_b: "IndexByte (h @ CHR '':'' # p) (CHR '']'') = None"
    using assms(3,6) by (simp add: IndexByte_None)
  show ?thesis
    by (simp add: SplitHostPort_def SplitHostPort_tail_def last first host open_b close_b)
qed

lemma SplitHostPort_no_colon:
  assumes "CHR '':'' \<notin> set s"
  shows "SplitHostPort s = Inl (AddrError missingPort s)"
  using assms by (simp add: SplitHostPort_def LastIndexByte_None[THEN iffD2])

lemma digitval_separators:
  "digitval (CHR '':'') = None" "digitval (CHR ''['') = None" "digitval (CHR '']'') = None"
  by (simp_all add: digitval_def)

lemma ParseUint_loop_chars:
  assumes "ParseUint_loop s0 cs n = Inr m" and "c \<in> set cs"
  shows "digitval c \<noteq> None"
  using assms
proof (induction cs arbitrary: n)
  case Nil
  then show ?case by simp
next
  case (Cons x xs)
  then show ?case
    by (auto simp: Let_def split: option.splits if_splits)
qed

lemma ParseUint_chars:
  assumes "ParseUint p = Inr n"
  shows "CHR '':'' \<notin> set p \<and> CHR ''['' \<notin> set p \<and> CHR '']'' \<notin> set p"
proof -
  from assms have l: "ParseUint_loop p p 0 = Inr n"
    by (simp add: ParseUint_def split: if_splits)
  show ?thesis
    using ParseUint_loop_chars[OF l] digitval_separators by blast
qed

lemma ParseUint_loop_bound:
  assumes "ParseUint_loop s0 cs n = Inr m" and "n \<le> maxVal16"
  shows "m \<le> maxVal16"
  using assms
proof (induction cs arbitrary: n)
  case Nil
  then show ?case by simp
next
  case (Cons x xs)
  then show ?case
    by (auto simp: Let_def split: option.splits if_splits)
qed

lemma ParseUint_bound:
  assumes "ParseUint p = Inr n"
  shows "n < 65536"
proof -
  from assms have "ParseUint_loop p p 0 = Inr n"
    by (simp add: ParseUint_def split: if_splits)
  from ParseUint_loop_bound[OF this] show ?thesis by (simp add: maxVal16_def)
qed

lemma ParseIP_nonempty:
  assumes "ParseIP s = Some ip"
  shows "s \<noteq> []"
  using assms by (auto simp: ParseIP_def)

lemma dtoi_loop_digits:
  assumes "dtoi_loop cs n i = (m, c, True)"
  shows "i \<le> c \<and> c - i \<le> length cs \<and> list_all is_digit (take (c - i) cs)"
  using assms
proof (induction cs arbitrary: n i)
  case Nil
  then show ?case by (simp split: if_splits)
next
  case (Cons x xs)
  show ?case
  proof (cases "is_digit x")
    case True
    with Cons.prems have r: "dtoi_loop xs (n * 10 + (of_char x - 48)) (i + 1) = (m, c, True)"
      by (simp add: is_digit_def Let_def split: if_splits)
    from Cons.IH[OF r] have ih: "i + 1 \<le> c" "c - (i + 1) \<le> length xs"
      "list_all is_digit (take (c - (i + 1)) xs)" by simp_all
    from ih(1) have "c - i = Suc (c - (i + 1))" by simp
    with ih True show ?thesis by simp
  next
    case False
    with Cons.prems have "c = i"
      by (simp add: is_digit_def Let_def split: if_splits)
    then show ?thesis by simp
  qed
qed

lemma dtoi_digits:
  assumes "dtoi s = (m, c, True)"
  shows "c \<le> length s \<and> list_all is_digit (take c s)"
  using dtoi_loop_digits[of s 0 0 m c] assms by (simp add: dtoi_def)

lemma parseIPv4_loop_chars:
  assumes "parseIPv4_loop i s p = Some r"
  shows "list_all v4char s"
  using assms
proof (induction i s p rule: parseIPv4_loop.induct)
  case (1 i s p)
  show ?case
  proof (cases "i < 4")
    case False
    with "1.prems" show ?thesis
      by (simp add: parseIPv4_loop.simps[of i s p] split: if_splits)
  next
    case lt: True
    from "1.prems" lt have ne: "s \<noteq> []"
      by (simp add: parseIPv4_loop.simps[of i s p] split: if_splits)
    define s1o where "s1o = (if i > 0 then (if hd s \<noteq> CHR ''.'' then None else Some (tl s))
                 else Some s)"
    from "1.prems" lt ne obtain s1 where s1: "s1o = Some s1"
      by (cases s1o) (simp_all add: parseIPv4_loop.simps[of i s p] s1o_def)
    obtain n c ok where d: "dtoi s1 = (n, c, ok)" by (cases "dtoi s1") auto
    from "1.prems" lt ne s1 d have ok: "ok" and
      rec: "parseIPv4_loop (i + 1) (drop c s1) (p @ [word_of_nat n]) = Some r"
      and g: "\<not> (\<not> ok \<or> 255 < n)" "\<not> (1 < c \<and> hd s1 = CHR ''0'')"
      by (auto simp: parseIPv4_loop.simps[of i s p] s1o_def split: if_splits)
    have ih: "list_all v4char (drop c s1)"
      by (rule "1.IH"[of s1 n "(c, ok)" c ok])
        (use lt ne s1 d g rec in \<open>simp_all add: s1o_def\<close>)
    from d ok dtoi_digits[of s1 n c] have dg: "list_all is_digit (take c s1)" by simp
    then have "list_all v4char (take c s1)"
      by (simp add: list_all_iff v4char_def)
    with ih have "list_all v4char (take c s1 @ drop c s1)"
      by (simp only: list_all_append)
    then have all1: "list_all v4char s1"
      by (simp only: append_take_drop_id)
    show ?thesis
    proof (cases "i > 0")
      case True
      with s1 ne have "s = CHR ''.'' # s1"
        by (cases s) (auto simp: s1o_def split: if_splits)
      moreover have "v4char (CHR ''.'')" by (simp add: v4char_def)
      ultimately show ?thesis using all1 by simp
    next
      case False
      with s1 have "s = s1" by (simp add: s1o_def)
      with all1 show ?thesis by simp
    qed
  qed
qed


lemma ParseIP_scan_no_colon:
  assumes "CHR '':'' \<notin> set cs" and "ParseIP_scan s cs = Some ip"
  shows "parseIPv4 s = Some ip"
  using assms by (induction cs) (auto split: if_splits)

lemma v4char_separators:
  "\<not> v4char (CHR ''['')" "\<not> v4char (CHR '']'')" "\<not> v4char (CHR '':'')"
  by (simp_all add: v4char_def is_digit_def)

lemma ParseIP_no_colon_chars:
  assumes "ParseIP h = Some ip" and "CHR '':'' \<notin> set h"
  shows "CHR ''['' \<notin> set h \<and> CHR '']'' \<notin> set h"
proof -
  from assms have "parseIPv4 h = Some ip"
    by (simp add: ParseIP_def ParseIP_scan_no_colon)
  then obtain r where "parseIPv4_loop 0 h [] = Some r"
    by (auto simp: parseIPv4_def)
  then have "list_all v4char h" by (rule parseIPv4_loop_chars)
  with v4char_separators show ?thesis by (auto simp: list_all_iff)
qed


lemma xtoi_loop_hex:
  assumes "xtoi_loop cs n i = (m, c, True)"
  shows "i \<le> c \<and> c - i \<le> length cs \<and> list_all (\<lambda>x. hexval x \<noteq> None) (take (c - i) cs)"
  using assms
proof (induction cs arbitrary: n i)
  case Nil
  then show ?case by (simp split: if_splits)
next
  case (Cons x xs)
  show ?case
  proof (cases "hexval x")
    case (Some d)
    with Cons.prems have r: "xtoi_loop xs (n * 16 + d) (i + 1) = (m, c, True)"
      by (simp add: Let_def split: if_splits)
    from Cons.IH[OF r] have ih: "i + 1 \<le> c" "c - (i + 1) \<le> length xs"
      "list_all (\<lambda>x. hexval x \<noteq> None) (take (c - (i + 1)) xs)" by simp_all
    from ih(1) have "c - i = Suc (c - (i + 1))" by simp
    with ih Some show ?thesis by simp
  next
    case None
    with Cons.prems have "c = i"
      by (simp split: if_splits)
    then show ?thesis by simp
  qed
qed

lemma hexval_colon: "hexval (CHR '':'') = None"
  by (simp add: hexval_def)

lemma xtoi_before_colon:
  assumes "xtoi (h @ CHR '':'' # p) = (n, c, True)"
  shows "c \<le> length h"
proof (rule ccontr)
  assume "\<not> c \<le> length h"
  then have lt: "length h < c" by simp
  from xtoi_loop_hex[of "h @ CHR '':'' # p" 0 0 n c] assms
  have L: "list_all (\<lambda>x. hexval x \<noteq> None) (take c (h @ CHR '':'' # p))"
    by (simp add: xtoi_def)
  from lt have M: "CHR '':'' \<in> set (take c (h @ CHR '':'' # p))"
    by (cases "c - length h") auto
  from L M have "hexval (CHR '':'') \<noteq> None"
    unfolding list_all_iff by blast
  with hexval_colon show False by simp
qed

text \<open>One turn of the loop of \<open>parseIPv6\<close>, by what follows the group read.\<close>

lemma parseIPv6_loop_bad_group:
  assumes "i < 16" and "xtoi s = (n, c, ok)" and "\<not> ok \<or> n > 0xFFFF"
  shows "parseIPv6_loop i s ip ell = None"
  using assms by (subst parseIPv6_loop.simps) auto

lemma parseIPv6_loop_misplaced_v4:
  assumes "i < 16" and "xtoi s = (n, c, ok)" and "c < length s \<and> s ! c = CHR ''.''"
    and "ell < 0" and "i \<noteq> 12"
  shows "parseIPv6_loop i s ip ell = None"
  using assms by (subst parseIPv6_loop.simps) auto

lemma parseIPv6_loop_end:
  assumes "i < 16" and "xtoi s = (n, c, True)" and "\<not> n > 0xFFFF"
    and "\<not> (c < length s \<and> s ! c = CHR ''.'')" and "drop c s = []"
  shows "\<exists>ip1. parseIPv6_loop i s ip ell = Some (i + 2, [], ip1, ell)"
  using assms by (subst parseIPv6_loop.simps) (simp add: Let_def)

lemma parseIPv6_loop_no_colon:
  assumes "i < 16" and "xtoi s = (n, c, True)" and "\<not> n > 0xFFFF"
    and "\<not> (c < length s \<and> s ! c = CHR ''.'')" and "drop c s = y # ys"
    and "y \<noteq> CHR '':'' \<or> ys = []"
  shows "parseIPv6_loop i s ip ell = None"
  using assms by (subst parseIPv6_loop.simps) (auto simp: Let_def)

lemma parseIPv6_loop_next:
  assumes "i < 16" and "xtoi s = (n, c, True)" and "\<not> n > 0xFFFF"
    and "\<not> (c < length s \<and> s ! c = CHR ''.'')" and "drop c s = CHR '':'' # y # ys"
    and "y \<noteq> CHR '':''"
  shows "parseIPv6_loop i s ip ell =
           parseIPv6_loop (i + 2) (y # ys)
             (ip[i := word_of_nat (drop_bit 8 n), i + 1 := word_of_nat n]) ell"
  using assms by (subst parseIPv6_loop.simps) (auto simp: Let_def)

text \<open>One more group of a text without colons: the loop ends there or fails.\<close>

lemma parseIPv6_loop_last_group:
  assumes "CHR '':'' \<notin> set t" and "ell < 0" and "i \<noteq> 12" and "i < 16"
  shows "parseIPv6_loop i t ip ell = None
         \<or> (\<exists>ip1. parseIPv6_loop i t ip ell = Some (i + 2, [], ip1, ell))"
proof -
  obtain n c ok where x: "xtoi t = (n, c, ok)" by (cases "xtoi t") auto
  consider (bad) "\<not> ok \<or> n > 0xFFFF"
    | (v4) "ok" "\<not> n > 0xFFFF" "c < length t \<and> t ! c = CHR ''.''"
    | (fin) "ok" "\<not> n > 0xFFFF" "\<not> (c < length t \<and> t ! c = CHR ''.'')" "drop c t = []"
    | (more) "ok" "\<not> n > 0xFFFF" "\<not> (c < length t \<and> t ! c = CHR ''.'')" "drop c t \<noteq> []"
    by blast
  then show ?thesis
  proof cases
    case bad
    with parseIPv6_loop_bad_group[OF assms(4) x] show ?thesis by simp
  next
    case v4
    with parseIPv6_loop_misplaced_v4[OF assms(4) x _ assms(2,3)] show ?thesis by simp
  next
    case fin
    with parseIPv6_loop_end[OF assms(4), of t n c ip ell] x show ?thesis by auto
  next
    case more
    then obtain y ys where d: "drop c t = y # ys" by (cases "drop c t") auto
    then have "y \<in> set t" by (metis in_set_dropD list.set_intros(1))
    with assms(1) have "y \<noteq> CHR '':''" by auto
    with parseIPv6_loop_no_colon[OF assms(4), of t n c y ys ip ell] x more d
    show ?thesis by simp
  qed
qed

lemma parseIPv6_one_colon:
  assumes "CHR '':'' \<notin> set h" and "CHR '':'' \<notin> set p" and "h \<noteq> []"
  shows "parseIPv6 (h @ CHR '':'' # p) = None"
proof -
  define s where "s = h @ CHR '':'' # p"
  define ip0 where "ip0 = replicate 16 (0 :: byte)"
  from assms(1,3) have s0: "s ! 0 \<noteq> CHR '':''" by (cases h) (auto simp: s_def)
  have loop: "parseIPv6_loop 0 s ip0 (- 1) = None
      \<or> (\<exists>ip1. parseIPv6_loop 0 s ip0 (- 1) = Some (4, [], ip1, - 1))"
  proof -
    obtain n c ok where x: "xtoi s = (n, c, ok)" by (cases "xtoi s") auto
    consider (bad) "\<not> ok \<or> n > 0xFFFF"
      | (v4) "ok" "\<not> n > 0xFFFF" "c < length s \<and> s ! c = CHR ''.''"
      | (more) "ok" "\<not> n > 0xFFFF" "\<not> (c < length s \<and> s ! c = CHR ''.'')"
      by blast
    then show ?thesis
    proof cases
      case bad
      with parseIPv6_loop_bad_group[OF _ x, of 0] show ?thesis by simp
    next
      case v4
      with parseIPv6_loop_misplaced_v4[OF _ x, of 0 "- 1"] show ?thesis by simp
    next
      case more
      with x have c: "c \<le> length h"
        using xtoi_before_colon[of h p n c] by (simp add: s_def)
      show ?thesis
      proof (cases "c < length h")
        case True
        then have d: "drop c s = h ! c # (drop (Suc c) h @ CHR '':'' # p)"
          by (simp add: s_def Cons_nth_drop_Suc)
        from True assms(1) have "h ! c \<noteq> CHR '':''" by (metis nth_mem)
        with parseIPv6_loop_no_colon[of 0 s n c "h ! c" _ ip0 "- 1"] x more d
        show ?thesis by simp
      next
        case False
        with c have ceq: "c = length h" by simp
        then have d: "drop c s = CHR '':'' # p" by (simp add: s_def)
        show ?thesis
        proof (cases p)
          case Nil
          with parseIPv6_loop_no_colon[of 0 s n c "CHR '':''" "[]" ip0 "- 1"] x more d
          show ?thesis by simp
        next
          case (Cons y ys)
          with assms(2) have y: "y \<noteq> CHR '':''" by auto
          define ip1 where
            "ip1 = ip0[0 := word_of_nat (drop_bit 8 n), 0 + 1 := word_of_nat n]"
          from parseIPv6_loop_next[of 0 s n c y ys ip0 "- 1"] x more d Cons y
          have step: "parseIPv6_loop 0 s ip0 (- 1) = parseIPv6_loop 2 p ip1 (- 1)"
            by (simp add: ip1_def numeral_2_eq_2)
          from parseIPv6_loop_last_group[OF assms(2), of "- 1" 2 ip1]
          show ?thesis unfolding step by simp
        qed
      qed
    qed
  qed
  from s0 have nolead: "\<not> (length s \<ge> 2 \<and> s ! 0 = CHR '':'' \<and> s ! 1 = CHR '':'')"
    by simp
  from loop nolead have "parseIPv6 s = None"
    unfolding parseIPv6_def Let_def ip0_def by auto
  then show ?thesis by (simp add: s_def)
qed


lemma ParseIP_cases:
  assumes "ParseIP s = Some ip"
  shows "parseIPv4 s = Some ip \<or> parseIPv6 s = Some ip"
proof -
  have "ParseIP_scan t cs = Some ip \<Longrightarrow> parseIPv4 t = Some ip \<or> parseIPv6 t = Some ip"
    for t cs
    by (induction cs) (auto split: if_splits)
  with assms show ?thesis by (simp add: ParseIP_def)
qed

lemma parseIPv4_chars:
  assumes "parseIPv4 s = Some ip"
  shows "list_all v4char s"
proof -
  from assms obtain r where "parseIPv4_loop 0 s [] = Some r"
    by (auto simp: parseIPv4_def)
  then show ?thesis by (rule parseIPv4_loop_chars)
qed

lemma parseIPv6_bracket:
  "parseIPv6 (CHR ''['' # t) = None"
proof -
  have x: "xtoi (CHR ''['' # t) = (0, 0, False)"
    by (simp add: xtoi_def hexval_def)
  have "parseIPv6_loop 0 (CHR ''['' # t) ip (- 1) = None" for ip
    using parseIPv6_loop_bad_group[OF _ x, of 0] by simp
  then show ?thesis by (simp add: parseIPv6_def Let_def)
qed

lemma IndexByte_Some:
  assumes "IndexByte s c = Some k"
  shows "k < length s \<and> s ! k = c \<and> c \<notin> set (take k s)"
  using assms
proof (induction s arbitrary: k)
  case Nil
  then show ?case by simp
next
  case (Cons x xs)
  then show ?case by (cases k) (auto split: if_splits)
qed

lemma LastIndexByte_Some:
  assumes "LastIndexByte s c = Some i"
  shows "i < length s \<and> s ! i = c \<and> c \<notin> set (drop (Suc i) s)"
proof -
  from assms obtain k where k: "IndexByte (rev s) c = Some k" and i: "i = length s - 1 - k"
    by (auto simp: LastIndexByte_def)
  from IndexByte_Some[OF k] have kl: "k < length s" and kn: "rev s ! k = c"
    and kt: "c \<notin> set (take k (rev s))" by simp_all
  from kl i have il: "i < length s" by simp
  from kl kn i have "s ! i = c" by (simp add: rev_nth)
  moreover from kl i have "Suc i = length s - k" by simp
  with kt have "c \<notin> set (drop (Suc i) s)" by (simp add: take_rev)
  ultimately show ?thesis using il by simp
qed

text \<open>A text that \<open>SplitHostPort\<close> accepts starts with a bracket or has one colon.\<close>

lemma SplitHostPort_shape:
  assumes "SplitHostPort s = Inr (h, p)" and "hd s \<noteq> CHR ''[''"
  shows "s = h @ CHR '':'' # p \<and> CHR '':'' \<notin> set h \<and> CHR '':'' \<notin> set p"
proof -
  from assms obtain i where l: "LastIndexByte s (CHR '':'') = Some i"
    by (cases "LastIndexByte s (CHR '':'')") (auto simp: SplitHostPort_def)
  from assms l have h: "h = take i s" and nc: "IndexByte (take i s) (CHR '':'') = None"
    and p: "p = drop (i + 1) s"
    by (auto simp: SplitHostPort_def SplitHostPort_tail_def Let_def split: if_splits)
  from LastIndexByte_Some[OF l] have il: "i < length s" and si: "s ! i = CHR '':''"
    and d: "CHR '':'' \<notin> set (drop (Suc i) s)" by simp_all
  from il si have "s = take i s @ CHR '':'' # drop (Suc i) s"
    by (metis id_take_nth_drop)
  with h p nc d show ?thesis by (simp add: IndexByte_None)
qed

lemma valid_IP_not_split:
  assumes "ParseIP s = Some ip" and "hd s \<noteq> CHR '':''"
  shows "\<exists>e. SplitHostPort s = Inl e"
proof (cases "SplitHostPort s")
  case (Inl e)
  then show ?thesis by simp
next
  case (Inr hp)
  obtain h p where hp: "hp = (h, p)" by (cases hp) auto
  from assms(1) have ne: "s \<noteq> []" by (auto simp: ParseIP_def)
  have False
  proof (cases "hd s = CHR ''[''")
    case True
    with ne obtain t where s: "s = CHR ''['' # t" by (cases s) auto
    from ParseIP_cases[OF assms(1)] show False
    proof
      assume "parseIPv4 s = Some ip"
      from parseIPv4_chars[OF this] s show False
        by (simp add: v4char_def is_digit_def)
    next
      assume "parseIPv6 s = Some ip"
      with s parseIPv6_bracket[of t] show False by simp
    qed
  next
    case False
    from SplitHostPort_shape[OF Inr[unfolded hp] False]
    have s: "s = h @ CHR '':'' # p" and h: "CHR '':'' \<notin> set h" and p: "CHR '':'' \<notin> set p"
      by simp_all
    from s assms(2) have hne: "h \<noteq> []" by (cases h) auto
    from ParseIP_cases[OF assms(1)] show False
    proof
      assume "parseIPv4 s = Some ip"
      from parseIPv4_chars[OF this] have "list_all v4char s" .
      moreover from s have "CHR '':'' \<in> set s" by simp
      ultimately show False
        using v4char_separators(3) by (auto simp: list_all_iff)
    next
      assume "parseIPv6 s = Some ip"
      with parseIPv6_one_colon[OF h p hne] s show False by simp
    qed
  qed
  then show ?thesis ..
qed

lemma valid_IP_not_host_port:
  assumes "ParseIP s = Some ip" and "hd s \<noteq> CHR '':''"
  shows "\<exists>e. ParseTCPAddr s = Inl e"
proof -
  from valid_IP_not_split[OF assms] obtain e where "SplitHostPort s = Inl e" ..
  then show ?thesis by (simp add: ParseTCPAddr_def)
qed

text \<open>A text that splits into host and port is not itself a valid IP.\<close>

lemma host_port_not_IP:
  assumes "SplitHostPort s = Inr (h, p)" and "hd s \<noteq> CHR '':''"
  shows "ParseIP s = None"
proof (cases "ParseIP s")
  case None
  then show ?thesis .
next
  case (Some ip)
  from valid_IP_not_split[OF Some assms(2)] assms(1) show ?thesis by simp
qed

lemma SplitHostPort_nonempty:
  assumes "SplitHostPort s = Inr (h, p)"
  shows "s \<noteq> []"
  using assms by (auto simp: SplitHostPort_def LastIndexByte_def)

text \<open>
  Claim C7, amended. A colon followed by a text that parses as an unsigned 16-bit
  integer yields a TCP endpoint without IP and with that port. A valid IP text
  without a colon (a dotted IPv4 text), a colon and such a port yield a TCP endpoint
  with exactly that IP and port. A valid IP text on its own that does not start with a
  colon yields a point-IP endpoint.
\<close>

theorem ParseAddr_grammars:
  "(ParseUint p = Inr n \<longrightarrow>
      ParseAddr (CHR '':'' # p) = Returns (Inr (TCPAddr None (int n) [])) \<and> n < 65536)
   \<and> (ParseIP h = Some ip \<and> CHR '':'' \<notin> set h \<and> ParseUint p = Inr n \<longrightarrow>
      ParseAddr (h @ CHR '':'' # p) = Returns (Inr (TCPAddr (Some ip) (int n) [])))
   \<and> (ParseIP s = Some ip \<and> hd s \<noteq> CHR '':'' \<longrightarrow>
      ParseAddr s = Returns (Inr (IPAddr (Some ip) [])))"
proof -
  have A: "ParseAddr (CHR '':'' # p) = Returns (Inr (TCPAddr None (int n) [])) \<and> n < 65536"
    if "ParseUint p = Inr n"
    using that ParseUint_bound[OF that] by (simp add: ParseAddr_def)
  have B: "ParseAddr (h @ CHR '':'' # p) = Returns (Inr (TCPAddr (Some ip) (int n) []))"
    if ip: "ParseIP h = Some ip" and h: "CHR '':'' \<notin> set h" and p: "ParseUint p = Inr n"
  proof -
    from ParseIP_no_colon_chars[OF ip h] have hb: "CHR ''['' \<notin> set h" "CHR '']'' \<notin> set h"
      by simp_all
    from ParseUint_chars[OF p] have pc: "CHR '':'' \<notin> set p" "CHR ''['' \<notin> set p"
      "CHR '']'' \<notin> set p" by simp_all
    have sp: "SplitHostPort (h @ CHR '':'' # p) = Inr (h, p)"
      using h hb pc by (rule SplitHostPort_plain)
    have tcp: "ParseTCPAddr (h @ CHR '':'' # p) = Inr (TCPAddr (Some ip) (int n) [])"
      by (simp add: ParseTCPAddr_def sp ip p)
    from ParseIP_nonempty[OF ip] h have "hd (h @ CHR '':'' # p) \<noteq> CHR '':''"
      by (cases h) auto
    then show ?thesis by (simp add: ParseAddr_def tcp)
  qed
  have C: "ParseAddr s = Returns (Inr (IPAddr (Some ip) []))"
    if ip: "ParseIP s = Some ip" and hd: "hd s \<noteq> CHR '':''"
  proof -
    from valid_IP_not_host_port[OF ip hd] obtain e where "ParseTCPAddr s = Inl e" ..
    with ParseIP_nonempty[OF ip] hd ip show ?thesis by (simp add: ParseAddr_def)
  qed
  from A B C show ?thesis by blast
qed

text \<open>
  Claim C7, as stated, fails on IPv6 texts. \<open>1::2\<close> is a valid IP and \<open>80\<close> a valid
  port, but \<open>1::2:80\<close> has too many colons for \<open>SplitHostPort\<close> and is itself a
  valid IP: the result is a point-IP endpoint for \<open>1::2:80\<close>, not a TCP endpoint for
  \<open>1::2\<close> and port 80. And the valid IP \<open>::1\<close>, on its own, starts with a colon:
  it is read as a port and refused.
\<close>

theorem ParseAddr_grammars_counterexample:
  "ParseIP ''1::2'' = Some [0, 1, 0, 0, 0, 0, 0, 0, 0, 0, 0, 0, 0, 0, 0, 2]
   \<and> ParseUint ''80'' = Inr 80
   \<and> ParseAddr (''1::2'' @ '':'' @ ''80'') =
        Returns (Inr (IPAddr (Some [0, 1, 0, 0, 0, 0, 0, 0, 0, 0, 0, 0, 0, 2, 0, 0x80]) []))
   \<and> ParseIP ''::1'' = Some [0, 0, 0, 0, 0, 0, 0, 0, 0, 0, 0, 0, 0, 0, 0, 1]
   \<and> ParseAddr ''::1'' =
        Returns (Inl (WrapError ''parse port :1: '' (NumError ''ParseUint'' '':1'' ErrSyntax)))"
proof -
  have a: "ParseIP ''1::2'' = Some [0, 1, 0, 0, 0, 0, 0, 0, 0, 0, 0, 0, 0, 0, 0, 2]"
    by (simp add: ParseIP_eval)
  have b: "ParseUint ''80'' = Inr 80"
    by (simp add: ParseUint_eval)
  have c1: "SplitHostPort ''1::2:80'' = Inl (AddrError tooManyColons ''1::2:80'')"
    by (simp add: SplitHostPort_eval)
  have c2: "ParseIP ''1::2:80'' = Some [0, 1, 0, 0, 0, 0, 0, 0, 0, 0, 0, 0, 0, 2, 0, 0x80]"
    by (simp add: ParseIP_eval)
  have c: "ParseAddr (''1::2'' @ '':'' @ ''80'') =
        Returns (Inr (IPAddr (Some [0, 1, 0, 0, 0, 0, 0, 0, 0, 0, 0, 0, 0, 2, 0, 0x80]) []))"
    by (simp add: ParseAddr_def ParseTCPAddr_def c1 c2)
  have d: "ParseIP ''::1'' = Some [0, 0, 0, 0, 0, 0, 0, 0, 0, 0, 0, 0, 0, 0, 0, 1]"
    by (simp add: ParseIP_eval)
  have e: "ParseAddr ''::1'' =
        Returns (Inl (WrapError ''parse port :1: '' (NumError ''ParseUint'' '':1'' ErrSyntax)))"
    by (simp add: ParseAddr_def ParseUint_eval)
  from a b c d e show ?thesis by (simp only: simp_thms)
qed

theorem ParseAddr_grammars_witness:
  "ParseUint ''53'' = Inr 53
   \<and> ParseAddr '':53'' = Returns (Inr (TCPAddr None 53 []))
   \<and> ParseIP ''1.2.3.4'' = Some [0, 0, 0, 0, 0, 0, 0, 0, 0, 0, 0xff, 0xff, 1, 2, 3, 4]
   \<and> ParseAddr ''1.2.3.4:53'' =
        Returns (Inr (TCPAddr (Some [0, 0, 0, 0, 0, 0, 0, 0, 0, 0, 0xff, 0xff, 1, 2, 3, 4]) 53 []))
   \<and> ParseAddr ''1.2.3.4'' =
        Returns (Inr (IPAddr (Some [0, 0, 0, 0, 0, 0, 0, 0, 0, 0, 0xff, 0xff, 1, 2, 3, 4]) []))
   \<and> ParseIP ''2001:db8::1'' = Some [0x20, 1, 0x0d, 0xb8, 0, 0, 0, 0, 0, 0, 0, 0, 0, 0, 0, 1]
   \<and> ParseAddr ''2001:db8::1'' =
        Returns (Inr (IPAddr (Some [0x20, 1, 0x0d, 0xb8, 0, 0, 0, 0, 0, 0, 0, 0, 0, 0, 0, 1]) []))"
proof -
  let ?v4 = "[0 :: byte, 0, 0, 0, 0, 0, 0, 0, 0, 0, 0xff, 0xff, 1, 2, 3, 4]"
  let ?v6 = "[0x20 :: byte, 1, 0x0d, 0xb8, 0, 0, 0, 0, 0, 0, 0, 0, 0, 0, 0, 1]"
  have p: "ParseUint ''53'' = Inr 53"
    by (simp add: ParseUint_eval)
  have i4: "ParseIP ''1.2.3.4'' = Some ?v4"
    by (simp add: ParseIP_eval)
  have i6: "ParseIP ''2001:db8::1'' = Some ?v6"
    by (simp add: ParseIP_eval)
  note T4 = ParseAddr_grammars[of "''53''" 53 "''1.2.3.4''" ?v4 "''1.2.3.4''"]
  note T6 = ParseAddr_grammars[of "''53''" 53 "''1.2.3.4''" ?v6 "''2001:db8::1''"]
  have a: "ParseAddr '':53'' = Returns (Inr (TCPAddr None 53 []))"
    using T4 p by simp
  have b: "ParseAddr ''1.2.3.4:53'' = Returns (Inr (TCPAddr (Some ?v4) 53 []))"
    using T4 p i4 by simp
  have c: "ParseAddr ''1.2.3.4'' = Returns (Inr (IPAddr (Some ?v4) []))"
    using T4 i4 by simp
  have d: "ParseAddr ''2001:db8::1'' = Returns (Inr (IPAddr (Some ?v6) []))"
    using T6 i6 by simp
  from p i4 i6 a b c d show ?thesis by (simp only: simp_thms)
qed

text \<open>
  Claim C8, as stated, fails where the port of an \<open><ip>:<port>\<close> text is bad:
  \<open>ParseTCPAddr\<close> names the port \<open>99999\<close>, but \<open>ParseAddr\<close> drops that error, tries
  the whole text as an IP and reports the whole text as an invalid IP.
\<close>

theorem ParseAddr_errors_counterexample:
  "SplitHostPort ''1.2.3.4:99999'' = Inr (''1.2.3.4'', ''99999'')
   \<and> ParseIP ''1.2.3.4'' = Some [0, 0, 0, 0, 0, 0, 0, 0, 0, 0, 0xff, 0xff, 1, 2, 3, 4]
   \<and> ParseUint ''99999'' = Inl (NumError ''ParseUint'' ''99999'' ErrRange)
   \<and> ParseTCPAddr ''1.2.3.4:99999'' =
        Inl (WrapError ''parse port 99999: '' (NumError ''ParseUint'' ''99999'' ErrRange))
   \<and> ParseAddr ''1.2.3.4:99999'' = Returns (Inl (ErrorString ''invalid ip 1.2.3.4:99999''))"
proof -
  have a: "SplitHostPort ''1.2.3.4:99999'' = Inr (''1.2.3.4'', ''99999'')"
    by (simp add: SplitHostPort_eval)
  have b: "ParseIP ''1.2.3.4'' = Some [0, 0, 0, 0, 0, 0, 0, 0, 0, 0, 0xff, 0xff, 1, 2, 3, 4]"
    by (simp add: ParseIP_eval)
  have c: "ParseUint ''99999'' = Inl (NumError ''ParseUint'' ''99999'' ErrRange)"
    by (simp add: ParseUint_eval)
  have d: "ParseTCPAddr ''1.2.3.4:99999'' =
        Inl (WrapError ''parse port 99999: '' (NumError ''ParseUint'' ''99999'' ErrRange))"
    by (simp add: ParseTCPAddr_def a b c)
  have e: "ParseIP ''1.2.3.4:99999'' = None"
    by (simp add: ParseIP_eval)
  have f: "ParseAddr ''1.2.3.4:99999'' = Returns (Inl (ErrorString ''invalid ip 1.2.3.4:99999''))"
    by (simp add: ParseAddr_def d e)
  from a b c d f show ?thesis by (simp only: simp_thms)
qed

text \<open>
  Claim C8, amended. \<open>ParseTCPAddr\<close> fails with a descriptive error that names the
  offending part: a text that does not split fails with the cause of the split
  wrapped after \<open>split host port: \<close>, an unparseable host part with \<open>invalid ip\<close>
  and that part, a port part that is no unsigned 16-bit integer with \<open>parse port\<close>,
  that part and the cause. \<open>ParseAddr\<close> fails with \<open>parse port\<close>, the text after
  the colon and the cause on a text that starts with a colon and goes on with no
  unsigned 16-bit integer; on every other text that is neither an \<open><ip>:<port>\<close>
  nor a valid IP it fails with \<open>invalid ip\<close> and the whole text: so it does on an
  \<open><ip>:<port>\<close> text whose IP or port is bad, whichever part failed. These are the
  only errors of the two functions.
\<close>

theorem parse_errors:
  "(SplitHostPort s = Inl cause \<longrightarrow>
      ParseTCPAddr s = Inl (WrapError ''split host port: '' cause))
   \<and> (SplitHostPort s = Inr (h, p) \<and> ParseIP h = None \<longrightarrow>
      ParseTCPAddr s = Inl (ErrorString (''invalid ip '' @ h)))
   \<and> (SplitHostPort s = Inr (h, p) \<and> ParseIP h = Some ip \<and> ParseUint p = Inl cause \<longrightarrow>
      ParseTCPAddr s = Inl (WrapError (''parse port '' @ p @ '': '') cause))
   \<and> (ParseUint q = Inl cause \<longrightarrow>
      ParseAddr (CHR '':'' # q) =
        Returns (Inl (WrapError (''parse port '' @ q @ '': '') cause)))
   \<and> (s \<noteq> [] \<and> hd s \<noteq> CHR '':'' \<and> ParseTCPAddr s = Inl e1 \<and> ParseIP s = None \<longrightarrow>
      ParseAddr s = Returns (Inl (ErrorString (''invalid ip '' @ s))))
   \<and> (SplitHostPort s = Inr (h, p) \<and> hd s \<noteq> CHR '':''
        \<and> (ParseIP h = None \<or> ParseUint p = Inl cause) \<longrightarrow>
      ParseAddr s = Returns (Inl (ErrorString (''invalid ip '' @ s))))
   \<and> (s \<noteq> [] \<and> CHR '':'' \<notin> set s \<and> ParseIP s = None \<longrightarrow>
      ParseAddr s = Returns (Inl (ErrorString (''invalid ip '' @ s))))
   \<and> (ParseTCPAddr s = Inl e \<longrightarrow>
      (\<exists>c. SplitHostPort s = Inl c \<and> e = WrapError ''split host port: '' c)
    \<or> (\<exists>h1 p1. SplitHostPort s = Inr (h1, p1) \<and> ParseIP h1 = None
              \<and> e = ErrorString (''invalid ip '' @ h1))
    \<or> (\<exists>h1 p1 ip1 c. SplitHostPort s = Inr (h1, p1) \<and> ParseIP h1 = Some ip1
              \<and> ParseUint p1 = Inl c
              \<and> e = WrapError (''parse port '' @ p1 @ '': '') c))
   \<and> (ParseAddr s = Returns (Inl e) \<longrightarrow>
      (hd s = CHR '':''
         \<and> (\<exists>c. ParseUint (tl s) = Inl c
                \<and> e = WrapError (''parse port '' @ tl s @ '': '') c))
    \<or> (hd s \<noteq> CHR '':'' \<and> ParseIP s = None \<and> (\<exists>e2. ParseTCPAddr s = Inl e2)
         \<and> e = ErrorString (''invalid ip '' @ s)))"
proof -
  have F1: "ParseTCPAddr s = Inl (WrapError ''split host port: '' cause)"
    if "SplitHostPort s = Inl cause"
    using that by (simp add: ParseTCPAddr_def)
  have F2: "ParseTCPAddr s = Inl (ErrorString (''invalid ip '' @ h))"
    if "SplitHostPort s = Inr (h, p)" "ParseIP h = None"
    using that by (simp add: ParseTCPAddr_def)
  have F3: "ParseTCPAddr s = Inl (WrapError (''parse port '' @ p @ '': '') cause)"
    if "SplitHostPort s = Inr (h, p)" "ParseIP h = Some ip" "ParseUint p = Inl cause"
    using that by (simp add: ParseTCPAddr_def)
  have G1: "ParseAddr (CHR '':'' # q) =
        Returns (Inl (WrapError (''parse port '' @ q @ '': '') cause))"
    if "ParseUint q = Inl cause"
    using that by (simp add: ParseAddr_def)
  have G2: "ParseAddr s = Returns (Inl (ErrorString (''invalid ip '' @ s)))"
    if "s \<noteq> []" "hd s \<noteq> CHR '':''" "ParseTCPAddr s = Inl e1" "ParseIP s = None"
    for e1
    using that by (simp add: ParseAddr_def)
  have G3: "ParseAddr s = Returns (Inl (ErrorString (''invalid ip '' @ s)))"
    if sp: "SplitHostPort s = Inr (h, p)" and hd: "hd s \<noteq> CHR '':''"
      and bad: "ParseIP h = None \<or> ParseUint p = Inl cause"
  proof -
    from sp have ne: "s \<noteq> []" by (rule SplitHostPort_nonempty)
    from sp hd have ip: "ParseIP s = None" by (rule host_port_not_IP)
    from sp bad have "\<exists>e1. ParseTCPAddr s = Inl e1"
      by (cases "ParseIP h") (auto simp: ParseTCPAddr_def)
    then obtain e1 where "ParseTCPAddr s = Inl e1" ..
    with ne hd show ?thesis using ip by (rule G2)
  qed
  have G4: "ParseAddr s = Returns (Inl (ErrorString (''invalid ip '' @ s)))"
    if ne: "s \<noteq> []" and nc: "CHR '':'' \<notin> set s" and ip: "ParseIP s = None"
  proof -
    from ne nc have hd: "hd s \<noteq> CHR '':''" by (cases s) auto
    have "ParseTCPAddr s = Inl (WrapError ''split host port: '' (AddrError missingPort s))"
      by (simp add: ParseTCPAddr_def SplitHostPort_no_colon[OF nc])
    with ne hd show ?thesis using ip by (rule G2)
  qed
  have A: "(\<exists>c. SplitHostPort s = Inl c \<and> e = WrapError ''split host port: '' c)
    \<or> (\<exists>h1 p1. SplitHostPort s = Inr (h1, p1) \<and> ParseIP h1 = None
              \<and> e = ErrorString (''invalid ip '' @ h1))
    \<or> (\<exists>h1 p1 ip1 c. SplitHostPort s = Inr (h1, p1) \<and> ParseIP h1 = Some ip1
              \<and> ParseUint p1 = Inl c
              \<and> e = WrapError (''parse port '' @ p1 @ '': '') c)"
    if "ParseTCPAddr s = Inl e"
    using that
    by (auto simp: ParseTCPAddr_def split: sum.splits prod.splits option.splits)
  have B: "(hd s = CHR '':''
         \<and> (\<exists>c. ParseUint (tl s) = Inl c
                \<and> e = WrapError (''parse port '' @ tl s @ '': '') c))
    \<or> (hd s \<noteq> CHR '':'' \<and> ParseIP s = None \<and> (\<exists>e2. ParseTCPAddr s = Inl e2)
         \<and> e = ErrorString (''invalid ip '' @ s))"
    if "ParseAddr s = Returns (Inl e)"
    using that
    by (auto simp: ParseAddr_def split: if_splits sum.splits option.splits)
  show ?thesis
    apply (intro conjI impI)
    subgoal by (rule F1)
    subgoal by (rule F2) simp_all
    subgoal by (rule F3) simp_all
    subgoal by (rule G1)
    subgoal by (rule G2) simp_all
    subgoal by (rule G3) simp_all
    subgoal by (rule G4) simp_all
    subgoal by (rule A)
    subgoal by (rule B)
    done
qed

theorem parse_errors_witness:
  "SplitHostPort ''1.2.3.4:99999'' = Inr (''1.2.3.4'', ''99999'')
   \<and> ParseIP ''1.2.3.4'' = Some [0, 0, 0, 0, 0, 0, 0, 0, 0, 0, 0xff, 0xff, 1, 2, 3, 4]
   \<and> ParseUint ''99999'' = Inl (NumError ''ParseUint'' ''99999'' ErrRange)
   \<and> ParseTCPAddr ''1.2.3.4:99999'' =
        Inl (WrapError ''parse port 99999: '' (NumError ''ParseUint'' ''99999'' ErrRange))
   \<and> ParseAddr ''1.2.3.4:99999'' = Returns (Inl (ErrorString ''invalid ip 1.2.3.4:99999''))
   \<and> SplitHostPort ''1.2.3:80'' = Inr (''1.2.3'', ''80'')
   \<and> ParseIP ''1.2.3'' = None
   \<and> ParseTCPAddr ''1.2.3:80'' = Inl (ErrorString ''invalid ip 1.2.3'')
   \<and> ParseAddr ''1.2.3:80'' = Returns (Inl (ErrorString ''invalid ip 1.2.3:80''))
   \<and> SplitHostPort ''example'' = Inl (AddrError missingPort ''example'')
   \<and> ParseTCPAddr ''example'' =
        Inl (WrapError ''split host port: '' (AddrError missingPort ''example''))
   \<and> ParseIP ''example'' = None
   \<and> ParseAddr ''example'' = Returns (Inl (ErrorString ''invalid ip example''))
   \<and> ParseUint ''x'' = Inl (NumError ''ParseUint'' ''x'' ErrSyntax)
   \<and> ParseAddr '':x'' =
        Returns (Inl (WrapError ''parse port x: '' (NumError ''ParseUint'' ''x'' ErrSyntax)))"
proof -
  let ?v4 = "[0 :: byte, 0, 0, 0, 0, 0, 0, 0, 0, 0, 0xff, 0xff, 1, 2, 3, 4]"
  let ?toobig = "NumError ''ParseUint'' ''99999'' ErrRange"
  let ?nosyn = "NumError ''ParseUint'' ''x'' ErrSyntax"
  let ?missing = "AddrError missingPort ''example''"
  have a: "SplitHostPort ''1.2.3.4:99999'' = Inr (''1.2.3.4'', ''99999'')"
    by (simp add: SplitHostPort_eval)
  have b: "ParseIP ''1.2.3.4'' = Some ?v4"
    by (simp add: ParseIP_eval)
  have c: "ParseUint ''99999'' = Inl ?toobig"
    by (simp add: ParseUint_eval)
  have hd1: "hd ''1.2.3.4:99999'' \<noteq> CHR '':''" by simp
  have a2: "SplitHostPort ''1.2.3:80'' = Inr (''1.2.3'', ''80'')"
    by (simp add: SplitHostPort_eval)
  have b2: "ParseIP ''1.2.3'' = None"
    by (simp add: ParseIP_eval)
  have hd2: "hd ''1.2.3:80'' \<noteq> CHR '':''" by simp
  have a3: "SplitHostPort ''example'' = Inl ?missing"
    by (simp add: SplitHostPort_eval)
  have b3: "ParseIP ''example'' = None"
    by (simp add: ParseIP_eval)
  have n3: "''example'' \<noteq> [] \<and> CHR '':'' \<notin> set ''example''" by simp
  have x: "ParseUint ''x'' = Inl ?nosyn"
    by (simp add: ParseUint_eval)
  note T1 = parse_errors[of "''1.2.3.4:99999''" ?toobig "''1.2.3.4''" "''99999''" ?v4 "''x''"
      ?missing ?missing]
  note T2 = parse_errors[of "''1.2.3:80''" ?nosyn "''1.2.3''" "''80''" ?v4 "''x''"
      ?missing ?missing]
  note T3 = parse_errors[of "''example''" ?missing "''1.2.3''" "''80''" ?v4 "''x''"
      ?missing ?missing]
  from T1 a b c have d: "ParseTCPAddr ''1.2.3.4:99999'' =
      Inl (WrapError ''parse port 99999: '' ?toobig)" by simp
  from T1 a c hd1
  have f: "ParseAddr ''1.2.3.4:99999'' = Returns (Inl (ErrorString ''invalid ip 1.2.3.4:99999''))"
    by simp
  from T2 a2 b2 have d2: "ParseTCPAddr ''1.2.3:80'' = Inl (ErrorString ''invalid ip 1.2.3'')"
    by simp
  from T2 a2 b2 hd2
  have f2: "ParseAddr ''1.2.3:80'' = Returns (Inl (ErrorString ''invalid ip 1.2.3:80''))"
    by simp
  from T3 a3 have d3: "ParseTCPAddr ''example'' =
      Inl (WrapError ''split host port: '' ?missing)" by simp
  from T3 b3 n3
  have f3: "ParseAddr ''example'' = Returns (Inl (ErrorString ''invalid ip example''))"
    by simp
  from T2 x have g: "ParseAddr '':x'' =
      Returns (Inl (WrapError ''parse port x: '' ?nosyn))" by simp
  from a b c d f a2 b2 d2 f2 a3 d3 b3 f3 x g show ?thesis by (simp only: simp_thms)
qed

end
